theory Spec2Isabelle
  imports Main "HOL-Library.Sublist"
begin

section \<open>Strings and characters\<close>

text \<open>
  A JavaScript string is modelled as a \<^typ>\<open>string\<close>: a list of characters, each
  standing for one code unit. Every character the code under study looks at (backslash,
  comma, semicolon, line feed, carriage return, the white space removed by \<open>trim\<close>) is
  below 256, so the model keeps what the code can tell apart.
\<close>

definition CR :: char where
  "CR = CHR 0x0D"

definition LF :: char where
  "LF = CHR 0x0A"

definition BS :: char where
  "BS = CHR 0x5C"

definition CRLF :: string where
  "CRLF = [CR, LF]"

text \<open>
  What a call can throw: a \<open>TypeError\<close> raised by the code itself (a property read from
  \<open>undefined\<close>), or the failure of a collaborator, with its message.
\<close>

datatype error = TypeError | Failure string

section \<open>The calendar record codec: \<open>src/utils/ical-lib.ts\<close>\<close>

subsection \<open>\<open>escapeText\<close>\<close>

text \<open>
  \<^verbatim>\<open>str.replace(/[\\,;]/g, (match) => `\\${match}`).replace(/\n/g, "\\n")\<close>:
  two global replacements, one after the other. Each pattern matches a single
  character, so a global replacement rewrites the string character by character.
\<close>

definition replaceSpecial :: "string \<Rightarrow> string" where
  "replaceSpecial str =
     concat (map (\<lambda>c. if c = BS \<or> c = CHR '','' \<or> c = CHR '';'' then [BS, c] else [c]) str)"

definition replaceNewline :: "string \<Rightarrow> string" where
  "replaceNewline str =
     concat (map (\<lambda>c. if c = LF then [BS, CHR ''n''] else [c]) str)"

definition escapeText :: "string \<Rightarrow> string" where
  "escapeText str = replaceNewline (replaceSpecial str)"

text \<open>
  The escaping rule in the words of the specification, as one pass over the text:
  backslash, comma and semicolon are each prefixed with a backslash, a line feed becomes
  the two characters backslash and \<open>n\<close>, every other character stays.
\<close>

definition escapeChar_spec :: "char \<Rightarrow> string" where
  "escapeChar_spec c =
     (if c = BS \<or> c = CHR '','' \<or> c = CHR '';'' then [BS, c]
      else if c = LF then [BS, CHR ''n'']
      else [c])"

definition escapeText_spec :: "string \<Rightarrow> string" where
  "escapeText_spec str = concat (map escapeChar_spec str)"

text \<open>
  A text is well escaped when, read from the left, every backslash starts one of the four
  escape pairs and no comma, semicolon or line feed stands outside such a pair.
\<close>

fun wellEscaped :: "string \<Rightarrow> bool" where
  "wellEscaped [] = True"
| "wellEscaped [c] = (c \<noteq> BS \<and> c \<noteq> CHR '','' \<and> c \<noteq> CHR '';'' \<and> c \<noteq> LF)"
| "wellEscaped (c # d # cs) =
     (if c = BS then (d = BS \<or> d = CHR '','' \<or> d = CHR '';'' \<or> d = CHR ''n'') \<and> wellEscaped cs
      else c \<noteq> CHR '','' \<and> c \<noteq> CHR '';'' \<and> c \<noteq> LF \<and> wellEscaped (d # cs))"

subsection \<open>Dates and \<open>toCalDav\<close>\<close>

text \<open>
  A JavaScript \<open>Date\<close> holds a time value: milliseconds since the epoch, or \<open>NaN\<close>
  (an invalid date). \<open>new Date(v)\<close> clips a value beyond \<open>8.64e15\<close> to \<open>NaN\<close>.
\<close>

datatype jsdate = Date int | InvalidDate



text \<open>
  \<open>toCalDav\<close> hands the date to the luxon library:
  \<^verbatim>\<open>DateTime.fromJSDate(date).setZone("Europe/Helsinki").toFormat("yyyyMMdd'T'HHmmss")\<close>.
  The library is not part of the repository; what follows models its documented
  behaviour. A value that is not a valid date gives an invalid \<open>DateTime\<close>, which
  formats as the text \<open>Invalid DateTime\<close>. A valid instant is shifted to the civil time
  of Europe/Helsinki and printed field by field, without the milliseconds.

  Luxon reads the fields of the shifted time with the \<open>getUTC\<close> functions of \<open>Date\<close>,
  which the language standard defines: the day number of the first day of a year
  (\<open>DayFromYear\<close>), the year of a day as the largest year that starts on or before it
  (\<open>YearFromTime\<close>), the month by the day within the year (\<open>MonthFromTime\<close>) and the
  day of the month (\<open>DateFromTime\<close>). \<open>yearFromDay\<close> finds the year among the three
  candidates around the mean year length; \<open>yearFromDay_bracket\<close> and
  \<open>yearFromDay_unique\<close> below show that it is the year of the standard.
\<close>

definition dayFromYear :: "int \<Rightarrow> int" where
  "dayFromYear y =
     365 * (y - 1970) + (y - 1969) div 4 - (y - 1901) div 100 + (y - 1601) div 400"

definition inLeapYear :: "int \<Rightarrow> bool" where
  "inLeapYear y = (y mod 4 = 0 \<and> (y mod 100 \<noteq> 0 \<or> y mod 400 = 0))"

definition yearFromDay :: "int \<Rightarrow> int" where
  "yearFromDay d =
     (let y = 1970 + (400 * d) div 146097
      in if dayFromYear (y + 1) \<le> d then y + 1 else if dayFromYear y \<le> d then y else y - 1)"

text \<open>The number of days of the year before month \<open>m\<close> (1 to 12).\<close>

definition monthStart :: "bool \<Rightarrow> int \<Rightarrow> int" where
  "monthStart leap m =
     (let l = (if leap then 1 else 0)
      in if m \<le> 1 then 0 else if m = 2 then 31 else if m = 3 then 59 + l
         else if m = 4 then 90 + l else if m = 5 then 120 + l else if m = 6 then 151 + l
         else if m = 7 then 181 + l else if m = 8 then 212 + l else if m = 9 then 243 + l
         else if m = 10 then 273 + l else if m = 11 then 304 + l else 334 + l)"

definition monthFromDay :: "bool \<Rightarrow> int \<Rightarrow> int" where
  "monthFromDay leap w =
     (if w < monthStart leap 2 then 1 else if w < monthStart leap 3 then 2
      else if w < monthStart leap 4 then 3 else if w < monthStart leap 5 then 4
      else if w < monthStart leap 6 then 5 else if w < monthStart leap 7 then 6
      else if w < monthStart leap 8 then 7 else if w < monthStart leap 9 then 8
      else if w < monthStart leap 10 then 9 else if w < monthStart leap 11 then 10
      else if w < monthStart leap 12 then 11 else 12)"

definition civilFromDays :: "int \<Rightarrow> int \<times> int \<times> int" where
  "civilFromDays days =
     (let y = yearFromDay days;
          w = days - dayFromYear y;
          m = monthFromDay (inLeapYear y) w
      in (y, m, w - monthStart (inLeapYear y) m + 1))"

definition daysFromCivil :: "int \<Rightarrow> int \<Rightarrow> int \<Rightarrow> int" where
  "daysFromCivil y m d = dayFromYear y + monthStart (inLeapYear y) m + d - 1"

text \<open>
  The rule of the time zone database for Europe/Helsinki in force since 1996: two hours
  east of UTC, three from the last Sunday of March, 01:00 UTC, to the last Sunday of
  October, 01:00 UTC. \<open>lastSunday\<close> is the day number of the last Sunday of a month
  of 31 days; day 0 of the epoch was a Thursday. \<open>dstStart\<close> and \<open>dstEnd\<close> are the two
  instants of a year, in seconds, and \<open>ruleOffset\<close> is the offset that the rule gives at
  an instant, whatever the year. It is the offset of the zone only for the instants named
  below; \<open>toCalDav\<close> uses it for no other.
\<close>

definition lastSunday :: "int \<Rightarrow> int \<Rightarrow> int" where
  "lastSunday y m = (let d31 = daysFromCivil y m 31 in d31 - (d31 + 4) mod 7)"

definition dstStart :: "int \<Rightarrow> int" where
  "dstStart y = lastSunday y 3 * 86400 + 3600"

definition dstEnd :: "int \<Rightarrow> int" where
  "dstEnd y = lastSunday y 10 * 86400 + 3600"

definition ruleOffset :: "int \<Rightarrow> int" where
  "ruleOffset s =
     (let y = yearFromDay (s div 86400)
      in if dstStart y \<le> s \<and> s < dstEnd y then 10800 else 7200)"

text \<open>The civil time at an instant (in milliseconds) under this rule, as a count of seconds.\<close>

definition ruleLocal :: "int \<Rightarrow> int" where
  "ruleLocal t = (let s = t div 1000 in s + ruleOffset s)"

text \<open>
  The rule is the zone's from the end of summer time in 1995 on; before, summer time ended
  in September, had other limits or did not exist, and before 1921 Helsinki kept its mean
  time. Near the limits of \<open>Date\<close> luxon's \<open>DateTime\<close> is invalid. The model applies
  the rule to the instants whose civil time in Helsinki lies in the years 1996 to 9999,
  from 1995-12-31T22:00:00Z up to 9999-12-31T22:00:00Z. These are the years a timestamp
  of four digits can name, bar the years before 1996.
\<close>

definition modelledInstant :: "int \<Rightarrow> bool" where
  "modelledInstant t = (820447200000 \<le> t \<and> t < 253402293600000)"




text \<open>
  The format \<open>yyyyMMdd'T'HHmmss\<close>: each field in decimal, filled with zeros from the
  left to its width; a negative year gets its sign in front.
\<close>

definition digitChar :: "nat \<Rightarrow> char" where
  "digitChar d = ''0123456789'' ! d"

fun showNat :: "nat \<Rightarrow> string" where
  "showNat n = (if n < 10 then [digitChar n] else showNat (n div 10) @ [digitChar (n mod 10)])"

declare showNat.simps [simp del]

definition padStart :: "nat \<Rightarrow> string \<Rightarrow> string" where
  "padStart n s = replicate (n - length s) (CHR ''0'') @ s"

definition padNum :: "int \<Rightarrow> nat \<Rightarrow> string" where
  "padNum x n =
     (if x < 0 then ''-'' @ padStart n (showNat (nat (- x))) else padStart n (showNat (nat x)))"

definition formatLocal :: "int \<Rightarrow> string" where
  "formatLocal loc =
     (let ymd = civilFromDays (loc div 86400);
          sod = loc mod 86400
      in padNum (fst ymd) 4 @ padNum (fst (snd ymd)) 2 @ padNum (snd (snd ymd)) 2 @ ''T''
         @ padNum (sod div 3600) 2 @ padNum (sod mod 3600 div 60) 2 @ padNum (sod mod 60) 2)"

text \<open>
  What \<open>generateICal\<close> and \<open>toCalDav\<close> read from their surroundings: a fresh UUID,
  the clock, and the time zone data that luxon finds on the host. For an instant outside
  the modelled years, \<open>zoneOutside\<close> is the civil time of Europe/Helsinki that luxon
  computes from that data, in seconds, or \<open>None\<close> when its \<open>DateTime\<close> is invalid.
  The model says nothing more about these instants.
\<close>

record GenEnv =
  randomUUID :: string
  clock :: int
  zoneOutside :: "int \<Rightarrow> int option"

text \<open>The argument is \<open>None\<close> when the caller passes \<open>undefined\<close>.\<close>

definition toCalDav :: "GenEnv \<Rightarrow> jsdate option \<Rightarrow> string" where
  "toCalDav env date =
     (case date of
        Some (Date t) \<Rightarrow>
          (if modelledInstant t then formatLocal (ruleLocal t)
           else (case zoneOutside env t of
                   Some loc \<Rightarrow> formatLocal loc
                 | None \<Rightarrow> ''Invalid DateTime''))
      | _ \<Rightarrow> ''Invalid DateTime'')"

subsection \<open>\<open>generateICal\<close>\<close>

text \<open>
  \<open>ICalInput\<close> declares \<open>title\<close>, \<open>start\<close> and \<open>end\<close> as required and the other fields
  as optional. The declaration is erased when the program runs, so the model lets every
  field be absent (\<open>None\<close> for \<open>undefined\<close>) and says what the function does then. The
  field \<open>end\<close> is written \<open>end_date\<close>.
\<close>

record ICalInput =
  title :: "string option"
  start :: "jsdate option"
  end_date :: "jsdate option"
  description :: "string option"
  location :: "string option"
  uid :: "string option"
  domain :: "string option"

text \<open>\<open>if (s)\<close> on an optional string: neither \<open>undefined\<close> nor the empty string.\<close>

definition truthy :: "string option \<Rightarrow> bool" where
  "truthy s = (case s of None \<Rightarrow> False | Some v \<Rightarrow> v \<noteq> [])"

definition finalUid :: "GenEnv \<Rightarrow> ICalInput \<Rightarrow> string" where
  "finalUid env input =
     (if truthy (uid input) then the (uid input)
      else randomUUID env @ ''@''
           @ (case domain input of None \<Rightarrow> ''example-domain.com'' | Some d \<Rightarrow> d))"

definition headerLines :: "string list" where
  "headerLines =
     [''BEGIN:VCALENDAR'',
      ''VERSION:2.0'',
      ''PRODID:-//Standardized ICal Lib//EN'',
      ''CALSCALE:GREGORIAN'',
      ''BEGIN:VTIMEZONE'',
      ''TZID:Europe/Helsinki'',
      ''BEGIN:STANDARD'',
      ''DTSTART:20241027T030000'',
      ''RRULE:FREQ=YEARLY;BYMONTH=10;BYDAY=-1SU'',
      ''TZOFFSETFROM:+0300'',
      ''TZOFFSETTO:+0200'',
      ''TZNAME:EET'',
      ''END:STANDARD'',
      ''BEGIN:DAYLIGHT'',
      ''DTSTART:20240331T020000'',
      ''RRULE:FREQ=YEARLY;BYMONTH=3;BYDAY=-1SU'',
      ''TZOFFSETFROM:+0200'',
      ''TZOFFSETTO:+0300'',
      ''TZNAME:EEST'',
      ''END:DAYLIGHT'',
      ''END:VTIMEZONE'',
      ''BEGIN:VEVENT'']"

text \<open>
  The array \<open>lines\<close> as it stands before the join, for a title \<open>t\<close> that is a string:
  the fixed header, the properties of the event (the last two pushed only \<open>if (description)\<close>
  and \<open>if (location)\<close>), and the two closing lines.
\<close>

definition eventProps :: "GenEnv \<Rightarrow> ICalInput \<Rightarrow> string \<Rightarrow> string list" where
  "eventProps env input t =
     [''UID:'' @ finalUid env input,
      ''DTSTAMP:'' @ toCalDav env (Some (Date (clock env))),
      ''DTSTART;TZID=Europe/Helsinki:'' @ toCalDav env (start input),
      ''DTEND;TZID=Europe/Helsinki:'' @ toCalDav env (end_date input),
      ''SUMMARY:'' @ escapeText t]
     @ (if truthy (description input)
        then [''DESCRIPTION:'' @ escapeText (the (description input))] else [])
     @ (if truthy (location input)
        then [''LOCATION:'' @ escapeText (the (location input))] else [])"

definition icalLines :: "GenEnv \<Rightarrow> ICalInput \<Rightarrow> string \<Rightarrow> string list" where
  "icalLines env input t =
     headerLines @ eventProps env input t @ [''END:VEVENT'', ''END:VCALENDAR'']"

text \<open>A line of the given property: one that starts with the property's name and a colon.\<close>

definition hasLine :: "string \<Rightarrow> string list \<Rightarrow> bool" where
  "hasLine name ls = list_ex (prefix (name @ '':'')) ls"

text \<open>\<open>Array.prototype.join\<close>: the separator stands between the elements only.\<close>

fun joinWith :: "string \<Rightarrow> string list \<Rightarrow> string" where
  "joinWith sep [] = []"
| "joinWith sep [x] = x"
| "joinWith sep (x # y # ys) = x @ sep @ joinWith sep (y # ys)"

text \<open>
  The lines of a text, read from the left: the pieces between its CRLF pairs. This is how
  a reader of the interchange format finds the content lines of a record.
\<close>

definition consLine :: "char \<Rightarrow> string list \<Rightarrow> string list" where
  "consLine c ls = (case ls of [] \<Rightarrow> [[c]] | l # rest \<Rightarrow> (c # l) # rest)"

fun splitCRLF :: "string \<Rightarrow> string list" where
  "splitCRLF [] = [[]]"
| "splitCRLF [c] = [[c]]"
| "splitCRLF (c # d # cs) =
     (if c = CR \<and> d = LF then [] # splitCRLF cs else consLine c (splitCRLF (d # cs)))"

text \<open>
  \<open>escapeText(title)\<close> calls \<open>replace\<close> on its argument: on \<open>undefined\<close> that is a
  \<open>TypeError\<close>, the only way the function can throw.
\<close>

definition generateICal :: "GenEnv \<Rightarrow> ICalInput \<Rightarrow> error + string" where
  "generateICal env input =
     (case title input of
        None \<Rightarrow> Inl TypeError
      | Some t \<Rightarrow> Inr (joinWith CRLF (icalLines env input t)))"

subsection \<open>The parsing collaborator\<close>






text \<open>
  Modelled from the spec: the reading of a timestamp \<open>yyyyMMddTHHmmss\<close>. The six
  fields are read as decimal numbers and give a civil time, as a count of seconds; a text
  of another shape, such as \<open>Invalid DateTime\<close>, gives none.
\<close>

definition digitValue :: "char \<Rightarrow> nat option" where
  "digitValue c = (if c \<in> set ''0123456789'' then Some (of_char c - 48) else None)"

fun parseDigits :: "nat \<Rightarrow> string \<Rightarrow> nat option" where
  "parseDigits acc [] = Some acc"
| "parseDigits acc (c # cs) =
     (case digitValue c of None \<Rightarrow> None | Some v \<Rightarrow> parseDigits (10 * acc + v) cs)"

definition parseNat :: "string \<Rightarrow> int option" where
  "parseNat s = (if s = [] then None else map_option int (parseDigits 0 s))"

definition parseTimestamp :: "string \<Rightarrow> int option" where
  "parseTimestamp text =
     (if length text = 15 \<and> text ! 8 = CHR ''T''
      then (case (parseNat (take 4 text), parseNat (take 2 (drop 4 text)),
                  parseNat (take 2 (drop 6 text)), parseNat (take 2 (drop 9 text)),
                  parseNat (take 2 (drop 11 text)), parseNat (take 2 (drop 13 text))) of
              (Some y, Some mo, Some d, Some h, Some mi, Some s) \<Rightarrow>
                Some (daysFromCivil y mo d * 86400 + h * 3600 + mi * 60 + s)
            | _ \<Rightarrow> None)
      else None)"






section \<open>The \<open>createEvent\<close> tool handler: \<open>src/mcp-server/index.ts\<close>\<close>



section \<open>The tool session orchestrator: \<open>src/mcp-client/index.ts\<close>\<close>

subsection \<open>Data\<close>

datatype json =
  JNull | JBool bool | JNumber int | JString string | JArray "json list"
  | JObject "(string \<times> json) list"

text \<open>
  A tool call \<open>{id, type: "function", function: {name, arguments}}\<close>, with the inner
  object's fields lifted.
\<close>

record ToolCall =
  tc_id :: string
  tc_name :: string
  tc_arguments :: string

datatype role = User | Assistant | System | Tool

text \<open>
  The content is declared a string; the chat endpoint may still send \<open>null\<close>, which the
  code expects (\<open>finalMessage.content || ""\<close>).
\<close>

record ChatMessage =
  role :: role
  content :: "string option"
  tool_calls :: "ToolCall list option"
  tool_call_id :: "string option"

record McpTool =
  tool_name :: string
  tool_description :: "string option"
  inputSchema :: json

record FunctionTool =
  fn_name :: string
  fn_description :: string
  fn_parameters :: json

record ChatCompletionRequest =
  req_model :: string
  req_messages :: "ChatMessage list"
  req_tools :: "FunctionTool list"
  req_tool_choice :: string

record RunResult =
  answer :: string
  toolCalls :: nat

subsection \<open>The collaborators\<close>

text \<open>
  Everything the function reaches outside itself, as the answers it gets. An answer has
  the shape its interface declares; one that cannot be read (no \<open>choices\<close>, no
  \<open>content\<close>) counts as the error the code would throw on reading it.
  \<^item> \<open>serverUrlValid\<close>: whether \<open>new URL(process.env.MCP_SERVER_URL)\<close> succeeds;
  \<^item> \<open>connect\<close>, \<open>transportClose\<close>: \<open>None\<close> when the call succeeds, the error otherwise;
  \<^item> \<open>listTools\<close>: the tool catalog, or an error;
  \<^item> \<open>systemPrompt\<close>: the fixed system text with the current date and time filled in;
  \<^item> \<open>fetchData\<close>: for a request, the messages of the response's choices, or an error;
  \<^item> \<open>JSON_parse\<close>: \<open>None\<close> where \<open>JSON.parse\<close> throws;
  \<^item> \<open>callTool\<close>: for the conversation at the time of the call, the tool's name and its
    arguments, the \<open>text\<close> of each returned content item (\<open>None\<close> for an item
    without one), or an error. The conversation grows with every call, so the answers
    to two calls of a session are independent.
\<close>

record Env =
  serverUrlValid :: bool
  connect :: "error option"
  listTools :: "error + McpTool list"
  systemPrompt :: string
  OPENAI_MODEL :: "string option"
  fetchData :: "ChatCompletionRequest \<Rightarrow> error + ChatMessage list"
  JSON_parse :: "string \<Rightarrow> json option"
  callTool :: "ChatMessage list \<Rightarrow> string \<Rightarrow> json \<Rightarrow> error + string option list"
  transportClose :: "error option"

text \<open>The calls made to the collaborators, in the order they are made.\<close>

datatype event = Connect | ListTools | Chat ChatCompletionRequest | CallTool string json | Close

definition isChat :: "event \<Rightarrow> bool" where
  "isChat e = (case e of Chat request \<Rightarrow> True | _ \<Rightarrow> False)"

definition isCallTool :: "event \<Rightarrow> bool" where
  "isCallTool e = (case e of CallTool name args \<Rightarrow> True | _ \<Rightarrow> False)"

text \<open>The number of requests to the chat endpoint in a trace: the rounds performed.\<close>

definition chatCount :: "event list \<Rightarrow> nat" where
  "chatCount tr = length (filter isChat tr)"

record State =
  messages :: "ChatMessage list"
  toolCallNames :: "string list"
  trace :: "event list"

subsection \<open>\<open>callMcpClient\<close>\<close>

definition toOpenaiTool :: "McpTool \<Rightarrow> FunctionTool" where
  "toOpenaiTool tool =
     \<lparr>fn_name = tool_name tool,
      fn_description =
        (if truthy (tool_description tool) then the (tool_description tool)
         else ''No description''),
      fn_parameters = inputSchema tool\<rparr>"

definition toolContent :: "string option list \<Rightarrow> string" where
  "toolContent result = joinWith [LF] (map (\<lambda>c. case c of None \<Rightarrow> [] | Some t \<Rightarrow> t) result)"

definition toolMessage :: "ToolCall \<Rightarrow> string option list \<Rightarrow> ChatMessage" where
  "toolMessage toolCall result =
     \<lparr>role = Tool,
      content = Some (toolContent result),
      tool_calls = None,
      tool_call_id = Some (tc_id toolCall)\<rparr>"

definition parseArgs :: "Env \<Rightarrow> string \<Rightarrow> json" where
  "parseArgs env payload = (case JSON_parse env payload of Some v \<Rightarrow> v | None \<Rightarrow> JObject [])"

text \<open>The call to the peer that a tool call leads to.\<close>

definition callEvent :: "Env \<Rightarrow> ToolCall \<Rightarrow> event" where
  "callEvent env toolCall = CallTool (tc_name toolCall) (parseArgs env (tc_arguments toolCall))"

text \<open>The body of the \<open>for\<close> loop: one tool call.\<close>

definition execToolCall :: "Env \<Rightarrow> State \<Rightarrow> ToolCall \<Rightarrow> error option \<times> State" where
  "execToolCall env st toolCall =
     (let st1 = st\<lparr>toolCallNames := toolCallNames st @ [tc_name toolCall]\<rparr>;
          args = parseArgs env (tc_arguments toolCall);
          st2 = st1\<lparr>trace := trace st1 @ [CallTool (tc_name toolCall) args]\<rparr>
      in case callTool env (messages st) (tc_name toolCall) args of
           Inl e \<Rightarrow> (Some e, st2)
         | Inr result \<Rightarrow>
             (None, st2\<lparr>messages := messages st2 @ [toolMessage toolCall result]\<rparr>))"

fun execToolCalls :: "Env \<Rightarrow> ToolCall list \<Rightarrow> State \<Rightarrow> error option \<times> State" where
  "execToolCalls env [] st = (None, st)"
| "execToolCalls env (toolCall # rest) st =
     (case execToolCall env st toolCall of
        (Some e, st') \<Rightarrow> (Some e, st')
      | (None, st') \<Rightarrow> execToolCalls env rest st')"

definition maxRounds :: nat where
  "maxRounds = 5"

definition model_name :: "Env \<Rightarrow> string" where
  "model_name env = (if truthy (OPENAI_MODEL env) then the (OPENAI_MODEL env) else ''gpt-4o-mini'')"

datatype step = Continue | Break | Throw error

definition requestBody :: "Env \<Rightarrow> FunctionTool list \<Rightarrow> ChatMessage list \<Rightarrow> ChatCompletionRequest" where
  "requestBody env openaiTools msgs =
     \<lparr>req_model = model_name env, req_messages = msgs,
      req_tools = openaiTools, req_tool_choice = ''auto''\<rparr>"

text \<open>The body of the \<open>while\<close> loop: one round.\<close>

definition roundStep :: "Env \<Rightarrow> FunctionTool list \<Rightarrow> State \<Rightarrow> step \<times> State" where
  "roundStep env openaiTools st =
     (let request = requestBody env openaiTools (messages st);
          st1 = st\<lparr>trace := trace st @ [Chat request]\<rparr>
      in case fetchData env request of
           Inl e \<Rightarrow> (Throw e, st1)
         | Inr [] \<Rightarrow> (Throw TypeError, st1)
         | Inr (message # others) \<Rightarrow>
             (let st2 = st1\<lparr>messages := messages st1 @ [message]\<rparr>
              in case tool_calls message of
                   None \<Rightarrow> (Break, st2)
                 | Some tcs \<Rightarrow>
                     if tcs = [] then (Break, st2)
                     else (case execToolCalls env tcs st2 of
                             (Some e, st3) \<Rightarrow> (Throw e, st3)
                           | (None, st3) \<Rightarrow> (Continue, st3))))"

function rounds :: "Env \<Rightarrow> FunctionTool list \<Rightarrow> nat \<Rightarrow> State \<Rightarrow> error option \<times> State" where
  "rounds env openaiTools round st =
     (if round < maxRounds
      then (case roundStep env openaiTools st of
              (Continue, st') \<Rightarrow> rounds env openaiTools (round + 1) st'
            | (Break, st') \<Rightarrow> (None, st')
            | (Throw e, st') \<Rightarrow> (Some e, st'))
      else (None, st))"
  by pat_completeness auto
termination
  by (relation "measure (\<lambda>(env, openaiTools, round, st). maxRounds - round)") auto

declare rounds.simps [simp del]

text \<open>White space as \<open>String.prototype.trim\<close> removes it, among the code units below 256.\<close>

definition isWhiteSpace :: "char \<Rightarrow> bool" where
  "isWhiteSpace c =
     (c = CHR 0x09 \<or> c = CHR 0x0A \<or> c = CHR 0x0B \<or> c = CHR 0x0C \<or> c = CHR 0x0D
      \<or> c = CHR 0x20 \<or> c = CHR 0xA0)"

definition trim :: "string \<Rightarrow> string" where
  "trim s = rev (dropWhile isWhiteSpace (rev (dropWhile isWhiteSpace s)))"

text \<open>The \<open>try\<close> block up to the end of the \<open>while\<close> loop.\<close>

definition session :: "Env \<Rightarrow> string \<Rightarrow> error option \<times> State" where
  "session env prompt =
     (case connect env of
        Some e \<Rightarrow> (Some e, \<lparr>messages = [], toolCallNames = [], trace = [Connect]\<rparr>)
      | None \<Rightarrow>
          (case listTools env of
             Inl e \<Rightarrow> (Some e, \<lparr>messages = [], toolCallNames = [], trace = [Connect, ListTools]\<rparr>)
           | Inr tools \<Rightarrow>
               rounds env (map toOpenaiTool tools) 0
                 \<lparr>messages =
                    [\<lparr>role = System, content = Some (systemPrompt env), tool_calls = None,
                      tool_call_id = None\<rparr>,
                     \<lparr>role = User, content = Some prompt, tool_calls = None,
                      tool_call_id = None\<rparr>],
                  toolCallNames = [],
                  trace = [Connect, ListTools]\<rparr>))"

definition finalAnswer :: "ChatMessage list \<Rightarrow> error + string" where
  "finalAnswer msgs =
     (if msgs = [] then Inl TypeError
      else Inr (trim (case content (last msgs) of None \<Rightarrow> [] | Some c \<Rightarrow> c)))"

definition tryBlock :: "Env \<Rightarrow> string \<Rightarrow> (error + RunResult) \<times> event list" where
  "tryBlock env prompt =
     (case session env prompt of
        (Some e, st) \<Rightarrow> (Inl e, trace st)
      | (None, st) \<Rightarrow>
          (case finalAnswer (messages st) of
             Inl e \<Rightarrow> (Inl e, trace st)
           | Inr a \<Rightarrow> (Inr \<lparr>answer = a, toolCalls = length (toolCallNames st)\<rparr>, trace st)))"

text \<open>
  The whole function: the transport is constructed before the \<open>try\<close>; the \<open>finally\<close>
  clause closes it, and an error of \<open>close\<close> replaces the outcome of the block.
\<close>

definition callMcpClient :: "Env \<Rightarrow> string \<Rightarrow> (error + RunResult) \<times> event list" where
  "callMcpClient env prompt =
     (if \<not> serverUrlValid env then (Inl TypeError, [])
      else (case tryBlock env prompt of
              (outcome, tr) \<Rightarrow>
                ((case transportClose env of Some e \<Rightarrow> Inl e | None \<Rightarrow> outcome), tr @ [Close])))"

section \<open>Sample inputs\<close>

text \<open>
  The time zone data of the sample environments: the offsets of Europe/Helsinki as the
  time zone database of 2024 records them. Helsinki kept its mean time, 1:39:49 east of
  UTC, until the end of April 1921, and two hours since. Summer time was kept in 1942,
  from 1981 on between the last Sundays of March and of September (changing at 00:00 UTC
  in 1981 and 1982, at 01:00 UTC since 1983), and since 1996 under the rule above. The
  host's own zone is taken to be UTC, so that luxon's \<open>DateTime\<close> is invalid exactly
  when the instant shifted by the offset leaves the range of \<open>Date\<close>.
\<close>

definition zoneHistory :: "int \<Rightarrow> int" where
  "zoneHistory s =
     (if s < - 1535938789 then 5989
      else if - 875671200 \<le> s \<and> s < - 859773600 then 10800
      else if 354672000 \<le> s \<and> s < 820447200
      then (let y = yearFromDay (s div 86400);
                shift = (if y < 1983 then 0 else 3600);
                d30 = daysFromCivil y 9 30;
                summerStart = lastSunday y 3 * 86400 + shift;
                summerEnd = (d30 - (d30 + 4) mod 7) * 86400 + shift
            in if summerStart \<le> s \<and> s < summerEnd then 10800 else 7200)
      else if 820447200 \<le> s then ruleOffset s
      else 7200)"

definition hostZoneData :: "int \<Rightarrow> int option" where
  "hostZoneData t =
     (let s = t div 1000; offset = zoneHistory s
      in if \<bar>t + offset * 1000\<bar> \<le> 8640000000000000 then Some (s + offset) else None)"

text \<open>
  Concrete inputs on which the theorems below are instantiated: an event with a title that
  needs escaping and a description of two lines, and variants of it with an empty
  description, without a start and without a title. The clock of \<open>genEnv0\<close> stands at
  10:00:00 UTC on 2 November 2024, in winter time, and the clock of \<open>genEnvSummer\<close> at
  10:00:00 UTC on 20 October 2024, in summer time.
\<close>

definition genEnv0 :: GenEnv where
  "genEnv0 =
     \<lparr>randomUUID = ''3b241101-e2bb-4255-8caf-4136c566a962'', clock = 1730541600000,
      zoneOutside = hostZoneData\<rparr>"


definition event0 :: ICalInput where
  "event0 =
     \<lparr>title = Some ''Team Sync; Q3'',
      start = Some (Date 1730793600000),
      end_date = Some (Date 1730797200000),
      description = Some (''Agenda:'' @ [LF] @ ''budget, hiring''),
      location = Some ''Room 2'',
      uid = None,
      domain = None\<rparr>"

definition eventEmptyDescription :: ICalInput where
  "eventEmptyDescription = event0\<lparr>description := Some []\<rparr>"

definition eventNoStart :: ICalInput where
  "eventNoStart = event0\<lparr>start := None\<rparr>"

definition eventNoTitle :: ICalInput where
  "eventNoTitle = event0\<lparr>title := None\<rparr>"



text \<open>
  An event without a description whose UID, supplied by the caller, holds a CRLF pair
  followed by the text of a \<open>DESCRIPTION\<close> line. \<open>generateICal\<close> writes the UID
  as it is.
\<close>

definition eventUidInjection :: ICalInput where
  "eventUidInjection =
     event0\<lparr>uid := Some (''x'' @ CRLF @ ''DESCRIPTION:evil''), description := None\<rparr>"






text \<open>
  Two sets of collaborators. With \<open>loopingEnv\<close> the chat endpoint answers every request
  with the same two tool calls, the second of which carries a payload that is not JSON, and
  every tool call returns the text \<open>done\<close> after a blank. \<open>loopingRound\<close> is what a
  round does to the state then. With \<open>answeringEnv\<close> the endpoint asks for the two tool
  calls once and gives its final message afterwards.
\<close>

definition listCall :: ToolCall where
  "listCall = \<lparr>tc_id = ''call_1'', tc_name = ''listEvents'', tc_arguments = ''{}''\<rparr>"

definition malformedCall :: ToolCall where
  "malformedCall = \<lparr>tc_id = ''call_2'', tc_name = ''createEvent'', tc_arguments = ''{start:''\<rparr>"

definition sampleCalls :: "ToolCall list" where
  "sampleCalls = [listCall, malformedCall]"

definition assistantMessage :: ChatMessage where
  "assistantMessage =
     \<lparr>role = Assistant, content = None, tool_calls = Some sampleCalls, tool_call_id = None\<rparr>"

definition finalMessage :: ChatMessage where
  "finalMessage =
     \<lparr>role = Assistant, content = Some ''No events.'', tool_calls = None, tool_call_id = None\<rparr>"

definition loopingEnv :: Env where
  "loopingEnv =
     \<lparr>serverUrlValid = True, connect = None, listTools = Inr [],
      systemPrompt = ''You are a calendar assistant'', OPENAI_MODEL = None,
      fetchData = (\<lambda>request. Inr [assistantMessage]),
      JSON_parse = (\<lambda>payload. if payload = ''{}'' then Some (JObject []) else None),
      callTool = (\<lambda>msgs name args. Inr [Some '' done'']),
      transportClose = None\<rparr>"

definition loopingRound :: "FunctionTool list \<Rightarrow> State \<Rightarrow> State" where
  "loopingRound tools st =
     \<lparr>messages = messages st
        @ [assistantMessage, toolMessage listCall [Some '' done''],
           toolMessage malformedCall [Some '' done'']],
      toolCallNames = toolCallNames st @ [''listEvents'', ''createEvent''],
      trace = trace st
        @ [Chat (requestBody loopingEnv tools (messages st)),
           CallTool ''listEvents'' (JObject []), CallTool ''createEvent'' (JObject [])]\<rparr>"

definition answeringEnv :: Env where
  "answeringEnv =
     \<lparr>serverUrlValid = True, connect = None, listTools = Inr [],
      systemPrompt = ''You are a calendar assistant'', OPENAI_MODEL = None,
      fetchData =
        (\<lambda>request. if length (req_messages request) = 2 then Inr [assistantMessage]
                    else Inr [finalMessage]),
      JSON_parse = (\<lambda>payload. if payload = ''{}'' then Some (JObject []) else None),
      callTool = (\<lambda>msgs name args. Inr [Some '' done'']),
      transportClose = None\<rparr>"

text \<open>
  With \<open>rejectingEnv\<close> the peer fails the call to \<open>createEvent\<close> that arrives without
  arguments and answers every other call.
\<close>

definition rejectingEnv :: Env where
  "rejectingEnv =
     answeringEnv\<lparr>callTool :=
       (\<lambda>msgs name args.
          if name = ''createEvent'' \<and> args = JObject []
          then Inl (Failure ''Invalid arguments for tool createEvent'')
          else Inr [Some '' done''])\<rparr>"

definition state0 :: State where
  "state0 =
     \<lparr>messages =
        [\<lparr>role = System, content = Some ''You are a calendar assistant'', tool_calls = None,
          tool_call_id = None\<rparr>,
         \<lparr>role = User, content = Some ''What is on today?'', tool_calls = None,
          tool_call_id = None\<rparr>],
      toolCallNames = [],
      trace = [Connect, ListTools]\<rparr>"

section \<open>Properties of the calendar and of the zone rule\<close>

subsection \<open>Years and days\<close>































subsection \<open>Reading a timestamp back\<close>












lemma parseTimestamp_invalid: "parseTimestamp ''Invalid DateTime'' = None"
  by (simp add: parseTimestamp_def)

subsection \<open>The sample instants\<close>





section \<open>Properties of the codec\<close>

subsection \<open>Escaping\<close>

lemma escapeText_eq_spec: "escapeText s = escapeText_spec s"
  by (induction s) (auto simp: escapeText_def replaceNewline_def replaceSpecial_def escapeText_spec_def escapeChar_spec_def BS_def LF_def)

lemma wellEscaped_escapeChar: "wellEscaped (escapeChar_spec c @ r) = wellEscaped r"
  by (cases r) (auto simp: escapeChar_spec_def BS_def LF_def)

lemma wellEscaped_spec: "wellEscaped (escapeText_spec s)"
  by (induction s) (simp_all add: escapeText_spec_def wellEscaped_escapeChar)

lemma LF_notin_escapeText: "LF \<notin> set (escapeText s)"
  by (induction s) (auto simp: escapeText_eq_spec escapeText_spec_def escapeChar_spec_def BS_def LF_def)



lemma generateICal_title:
  "title input = Some t \<Longrightarrow> generateICal env input = Inr (joinWith CRLF (icalLines env input t))"
  by (simp add: generateICal_def)

text \<open>
  Claim C2. The two replacements of \<open>escapeText\<close> together are the rule of the
  specification applied to each character (backslash, comma and semicolon get a backslash
  in front, a line feed becomes backslash and \<open>n\<close>), and their result is well escaped:
  read from the left, no backslash, comma, semicolon or line feed stands outside an escape
  pair. \<open>generateICal\<close> applies it to the title, to the description and to the location,
  each on its own, in the lines \<open>SUMMARY\<close>, \<open>DESCRIPTION\<close> and \<open>LOCATION\<close>.
\<close>

theorem escapeText_rule:
  "escapeText s = escapeText_spec s \<and> wellEscaped (escapeText s)
   \<and> (title input = Some t \<longrightarrow>
        generateICal env input = Inr (joinWith CRLF (icalLines env input t))
        \<and> ''SUMMARY:'' @ escapeText t \<in> set (icalLines env input t))
   \<and> (description input = Some d \<and> d \<noteq> [] \<longrightarrow>
        ''DESCRIPTION:'' @ escapeText d \<in> set (icalLines env input t))
   \<and> (location input = Some l \<and> l \<noteq> [] \<longrightarrow>
        ''LOCATION:'' @ escapeText l \<in> set (icalLines env input t))"
  by (simp add: escapeText_eq_spec wellEscaped_spec generateICal_title icalLines_def
      eventProps_def truthy_def)

theorem escapeText_rule_witness:
  "escapeText (''Agenda:'' @ [LF] @ ''budget, hiring'') = ''Agenda:'' @ [BS] @ ''nbudget'' @ [BS] @ '', hiring''
   \<and> wellEscaped (escapeText (''Agenda:'' @ [LF] @ ''budget, hiring''))
   \<and> title event0 = Some ''Team Sync; Q3''
   \<and> generateICal genEnv0 event0 = Inr (joinWith CRLF (icalLines genEnv0 event0 ''Team Sync; Q3''))
   \<and> ''SUMMARY:Team Sync'' @ [BS] @ ''; Q3'' \<in> set (icalLines genEnv0 event0 ''Team Sync; Q3'')
   \<and> description event0 = Some (''Agenda:'' @ [LF] @ ''budget, hiring'')
   \<and> ''DESCRIPTION:Agenda:'' @ [BS] @ ''nbudget'' @ [BS] @ '', hiring''
        \<in> set (icalLines genEnv0 event0 ''Team Sync; Q3'')
   \<and> location event0 = Some ''Room 2''
   \<and> ''LOCATION:Room 2'' \<in> set (icalLines genEnv0 event0 ''Team Sync; Q3'')"
  using escapeText_rule [of "''Agenda:'' @ [LF] @ ''budget, hiring''" event0 "''Team Sync; Q3''"
      genEnv0 "''Agenda:'' @ [LF] @ ''budget, hiring''" "''Room 2''"]
  by (simp add: event0_def escapeText_def replaceSpecial_def replaceNewline_def
      escapeText_spec_def escapeChar_spec_def BS_def LF_def)

subsection \<open>The lines of the record\<close>

lemma digitChar_not_LF: "d < 10 \<Longrightarrow> digitChar d \<noteq> LF"
proof -
  assume "d < 10"
  then have "digitChar d \<in> set ''0123456789''"
    unfolding digitChar_def by (intro nth_mem) simp
  then show ?thesis by (auto simp: LF_def)
qed

lemma LF_notin_showNat: "LF \<notin> set (showNat n)"
proof (induction n rule: showNat.induct)
  case (1 n)
  show ?case
  proof (cases "n < 10")
    case True
    then show ?thesis using digitChar_not_LF [of n] by (subst showNat.simps) auto
  next
    case False
    then show ?thesis using 1 digitChar_not_LF [of "n mod 10"]
      by (subst showNat.simps) auto
  qed
qed

lemma LF_notin_padNum: "LF \<notin> set (padNum x n)"
  using LF_notin_showNat [of "nat x"] LF_notin_showNat [of "nat (- x)"]
  by (auto simp: padNum_def padStart_def LF_def)

lemma LF_notin_formatLocal: "LF \<notin> set (formatLocal l)"
  using LF_notin_padNum by (auto simp: formatLocal_def Let_def LF_def)

lemma LF_notin_toCalDav: "LF \<notin> set (toCalDav env d)"
proof -
  have i: "LF \<notin> set ''Invalid DateTime''"
    by (simp add: LF_def)
  show ?thesis
    using LF_notin_formatLocal i
    by (simp add: toCalDav_def split: option.splits jsdate.splits)
qed

lemma splitCRLF_line: "LF \<notin> set l \<Longrightarrow> splitCRLF l = [l]"
proof (induction l rule: splitCRLF.induct)
  case 1
  then show ?case by simp
next
  case (2 c)
  then show ?case by simp
next
  case (3 c d cs)
  then show ?case by (auto simp: consLine_def)
qed

lemma splitCRLF_append: "LF \<notin> set l \<Longrightarrow> splitCRLF (l @ CR # LF # rest) = l # splitCRLF rest"
proof (induction l)
  case Nil
  then show ?case by simp
next
  case (Cons c l)
  then have "c \<noteq> LF" "LF \<notin> set l" by auto
  show ?case
  proof (cases l)
    case Nil
    then show ?thesis using \<open>c \<noteq> LF\<close> by (simp add: consLine_def CR_def LF_def)
  next
    case (Cons d l')
    then have "d \<noteq> LF" using \<open>LF \<notin> set l\<close> by auto
    then show ?thesis using Cons Cons.IH \<open>LF \<notin> set l\<close> by (simp add: consLine_def)
  qed
qed

lemma splitCRLF_join:
  "ls \<noteq> [] \<Longrightarrow> \<forall>l \<in> set ls. LF \<notin> set l \<Longrightarrow> splitCRLF (joinWith CRLF ls) = ls"
proof (induction ls rule: induct_list012)
  case 1
  then show ?case by simp
next
  case (2 x)
  then show ?case by (simp add: splitCRLF_line)
next
  case (3 x y zs)
  then show ?case by (simp add: splitCRLF_append CRLF_def)
qed

lemma LF_notin_icalLines:
  assumes "LF \<notin> set (finalUid env input)"
  shows "\<forall>l \<in> set (icalLines env input t). LF \<notin> set l"
proof -
  have h: "\<forall>l \<in> set headerLines. LF \<notin> set l"
    by (simp add: headerLines_def LF_def)
  have e: "\<forall>l \<in> set (eventProps env input t). LF \<notin> set l"
    using assms LF_notin_toCalDav [of env "start input"] LF_notin_toCalDav [of env "end_date input"]
      LF_notin_toCalDav [of env "Some (Date (clock env))"]
      LF_notin_escapeText [of t] LF_notin_escapeText [of "the (description input)"]
      LF_notin_escapeText [of "the (location input)"]
    by (auto simp: eventProps_def LF_def)
  show ?thesis using h e by (auto simp: icalLines_def LF_def)
qed

lemma splitCRLF_generate:
  assumes "LF \<notin> set (finalUid env input)"
  shows "splitCRLF (joinWith CRLF (icalLines env input t)) = icalLines env input t"
proof -
  have ne: "icalLines env input t \<noteq> []"
    by (simp add: icalLines_def headerLines_def)
  show ?thesis
    using splitCRLF_join [OF ne LF_notin_icalLines [OF assms]] .
qed

lemma hasLine_header: "\<not> hasLine ''DESCRIPTION'' headerLines \<and> \<not> hasLine ''LOCATION'' headerLines"
  by (simp add: hasLine_def headerLines_def)

lemma hasLine_append: "hasLine n (xs @ ys) = (hasLine n xs \<or> hasLine n ys)"
  by (simp add: hasLine_def)

lemma hasLine_eventProps:
  "hasLine ''DESCRIPTION'' (eventProps env input t) = truthy (description input)
   \<and> hasLine ''LOCATION'' (eventProps env input t) = truthy (location input)"
  by (simp add: hasLine_def eventProps_def)

lemma hasLine_icalLines:
  "hasLine ''DESCRIPTION'' (icalLines env input t) = truthy (description input)
   \<and> hasLine ''LOCATION'' (icalLines env input t) = truthy (location input)"
  using hasLine_header hasLine_eventProps [of env input t]
  by (simp add: icalLines_def hasLine_append) (simp add: hasLine_def)

lemma truthy_iff: "truthy x = (\<exists>v. x = Some v \<and> v \<noteq> [])"
  by (cases x) (simp_all add: truthy_def)

lemma joinWith_Cons: "joinWith sep (x # xs) = (if xs = [] then x else x @ sep @ joinWith sep xs)"
  by (cases xs) simp_all

lemma joinWith_break: "joinWith sep (xs @ (a @ sep @ b) # ys) = joinWith sep (xs @ a # b # ys)"
  by (induction xs) (simp_all add: joinWith_Cons)

text \<open>
  Claim C8 (amended). \<open>generateICal\<close> pushes a \<open>DESCRIPTION\<close> line exactly when the
  description is present and is not the empty string, and a \<open>LOCATION\<close> line exactly
  when the location is present and is not the empty string: \<open>if (description)\<close> is
  false for the empty string too. When the UID holds no line feed, the lines of the emitted
  text are the lines pushed, so the record then has a \<open>DESCRIPTION\<close> or \<open>LOCATION\<close>
  line under exactly these conditions. The counterexample is an event whose description
  is the empty string: it is present, and the record has no \<open>DESCRIPTION\<close> line. Its
  second part shows why the UID matters: a UID that holds a CRLF pair puts a line of its
  own into the record.
\<close>

theorem description_location_lines:
  assumes "title input = Some t"
  shows "generateICal env input = Inr (joinWith CRLF (icalLines env input t))
    \<and> hasLine ''DESCRIPTION'' (icalLines env input t) = (\<exists>d. description input = Some d \<and> d \<noteq> [])
    \<and> hasLine ''LOCATION'' (icalLines env input t) = (\<exists>l. location input = Some l \<and> l \<noteq> [])
    \<and> (LF \<notin> set (finalUid env input) \<longrightarrow>
         splitCRLF (projr (generateICal env input)) = icalLines env input t
         \<and> hasLine ''DESCRIPTION'' (splitCRLF (projr (generateICal env input)))
             = (\<exists>d. description input = Some d \<and> d \<noteq> [])
         \<and> hasLine ''LOCATION'' (splitCRLF (projr (generateICal env input)))
             = (\<exists>l. location input = Some l \<and> l \<noteq> []))"
  using assms hasLine_icalLines [of env input t] splitCRLF_generate [of env input t]
  by (simp add: generateICal_title truthy_iff)

theorem description_location_lines_witness:
  "title event0 = Some ''Team Sync; Q3''
   \<and> generateICal genEnv0 event0 = Inr (joinWith CRLF (icalLines genEnv0 event0 ''Team Sync; Q3''))
   \<and> hasLine ''DESCRIPTION'' (icalLines genEnv0 event0 ''Team Sync; Q3'')
   \<and> hasLine ''LOCATION'' (icalLines genEnv0 event0 ''Team Sync; Q3'')
   \<and> LF \<notin> set (finalUid genEnv0 event0)
   \<and> splitCRLF (projr (generateICal genEnv0 event0)) = icalLines genEnv0 event0 ''Team Sync; Q3''
   \<and> hasLine ''DESCRIPTION'' (splitCRLF (projr (generateICal genEnv0 event0)))
   \<and> hasLine ''LOCATION'' (splitCRLF (projr (generateICal genEnv0 event0)))"
proof -
  have t: "title event0 = Some ''Team Sync; Q3''"
    by (simp add: event0_def)
  have u: "LF \<notin> set (finalUid genEnv0 event0)"
    by (simp add: event0_def finalUid_def genEnv0_def truthy_def LF_def)
  have d: "\<exists>d. description event0 = Some d \<and> d \<noteq> []" "\<exists>l. location event0 = Some l \<and> l \<noteq> []"
    by (simp_all add: event0_def)
  from description_location_lines [OF t, of genEnv0] t u d
  show ?thesis by blast
qed

theorem empty_description_counterexample:
  "description eventEmptyDescription = Some []
   \<and> generateICal genEnv0 eventEmptyDescription
       = Inr (joinWith CRLF (icalLines genEnv0 eventEmptyDescription ''Team Sync; Q3''))
   \<and> \<not> hasLine ''DESCRIPTION'' (icalLines genEnv0 eventEmptyDescription ''Team Sync; Q3'')
   \<and> \<not> hasLine ''DESCRIPTION'' (splitCRLF (projr (generateICal genEnv0 eventEmptyDescription)))
   \<and> description eventUidInjection = None
   \<and> uid eventUidInjection = Some (''x'' @ CRLF @ ''DESCRIPTION:evil'')
   \<and> ''DESCRIPTION:evil'' \<in> set (splitCRLF (projr (generateICal genEnv0 eventUidInjection)))
   \<and> hasLine ''DESCRIPTION'' (splitCRLF (projr (generateICal genEnv0 eventUidInjection)))"
proof -
  have "LF \<notin> set (finalUid genEnv0 eventEmptyDescription)"
    by (simp add: finalUid_def genEnv0_def event0_def eventEmptyDescription_def truthy_def LF_def)
  from splitCRLF_generate [OF this, of "''Team Sync; Q3''"]
    hasLine_icalLines [of genEnv0 eventEmptyDescription "''Team Sync; Q3''"]
  have a: "description eventEmptyDescription = Some []
   \<and> generateICal genEnv0 eventEmptyDescription
       = Inr (joinWith CRLF (icalLines genEnv0 eventEmptyDescription ''Team Sync; Q3''))
   \<and> \<not> hasLine ''DESCRIPTION'' (icalLines genEnv0 eventEmptyDescription ''Team Sync; Q3'')
   \<and> \<not> hasLine ''DESCRIPTION'' (splitCRLF (projr (generateICal genEnv0 eventEmptyDescription)))"
    by (simp add: generateICal_def eventEmptyDescription_def event0_def truthy_def)
  define rest where "rest = tl (eventProps genEnv0 eventUidInjection ''Team Sync; Q3'')
      @ [''END:VEVENT'', ''END:VCALENDAR'']"
  have il: "icalLines genEnv0 eventUidInjection ''Team Sync; Q3''
      = headerLines @ (''UID:x'' @ CRLF @ ''DESCRIPTION:evil'') # rest"
    by (simp add: icalLines_def eventProps_def rest_def finalUid_def eventUidInjection_def
        event0_def truthy_def)
  have lf: "\<forall>l \<in> set (headerLines @ ''UID:x'' # ''DESCRIPTION:evil'' # rest). LF \<notin> set l"
    using LF_notin_toCalDav [of genEnv0 "Some (Date (clock genEnv0))"]
      LF_notin_toCalDav [of genEnv0 "start eventUidInjection"]
      LF_notin_toCalDav [of genEnv0 "end_date eventUidInjection"]
      LF_notin_escapeText [of "''Team Sync; Q3''"] LF_notin_escapeText [of "''Room 2''"]
    by (auto simp: rest_def eventProps_def headerLines_def eventUidInjection_def event0_def
        truthy_def LF_def)
  have g: "projr (generateICal genEnv0 eventUidInjection)
      = joinWith CRLF (icalLines genEnv0 eventUidInjection ''Team Sync; Q3'')"
    by (simp add: generateICal_def eventUidInjection_def event0_def)
  have ne: "headerLines @ ''UID:x'' # ''DESCRIPTION:evil'' # rest \<noteq> []"
    by simp
  have "splitCRLF (projr (generateICal genEnv0 eventUidInjection))
      = headerLines @ ''UID:x'' # ''DESCRIPTION:evil'' # rest"
    unfolding g il joinWith_break using splitCRLF_join [OF ne lf] .
  then have b: "''DESCRIPTION:evil'' \<in> set (splitCRLF (projr (generateICal genEnv0 eventUidInjection)))
     \<and> hasLine ''DESCRIPTION'' (splitCRLF (projr (generateICal genEnv0 eventUidInjection)))"
    by (simp add: hasLine_def)
  have c: "description eventUidInjection = None
     \<and> uid eventUidInjection = Some (''x'' @ CRLF @ ''DESCRIPTION:evil'')"
    by (simp add: eventUidInjection_def)
  show ?thesis using a b c by blast
qed

text \<open>
  Claim C3 (amended). \<open>generateICal\<close> checks nothing. Without a title it fails, since
  escaping \<open>undefined\<close> throws a \<open>TypeError\<close>. With a title and without a start (or
  with an invalid date as start) it does not fail: it returns a record whose \<open>DTSTART\<close>
  line carries the text \<open>Invalid DateTime\<close>. The counterexample is an event with a title
  and no start.
\<close>

theorem generateICal_missing_fields:
  "(title input = None \<longrightarrow> generateICal env input = Inl TypeError)
   \<and> (title input = Some t \<and> (start input = None \<or> start input = Some InvalidDate) \<longrightarrow>
        generateICal env input = Inr (joinWith CRLF (icalLines env input t))
        \<and> ''DTSTART;TZID=Europe/Helsinki:Invalid DateTime'' \<in> set (icalLines env input t))"
  by (auto simp: generateICal_def icalLines_def eventProps_def toCalDav_def)

theorem generateICal_missing_fields_witness:
  "title eventNoTitle = None \<and> generateICal genEnv0 eventNoTitle = Inl TypeError
   \<and> title eventNoStart = Some ''Team Sync; Q3'' \<and> start eventNoStart = None
   \<and> generateICal genEnv0 eventNoStart
       = Inr (joinWith CRLF (icalLines genEnv0 eventNoStart ''Team Sync; Q3''))
   \<and> ''DTSTART;TZID=Europe/Helsinki:Invalid DateTime''
       \<in> set (icalLines genEnv0 eventNoStart ''Team Sync; Q3'')"
  using generateICal_missing_fields [of eventNoTitle genEnv0 "[]"]
    generateICal_missing_fields [of eventNoStart genEnv0 "''Team Sync; Q3''"]
  by (simp add: eventNoTitle_def eventNoStart_def event0_def)

theorem missing_start_counterexample:
  "title eventNoStart = Some ''Team Sync; Q3'' \<and> start eventNoStart = None
   \<and> \<not> isl (generateICal genEnv0 eventNoStart)
   \<and> ''DTSTART;TZID=Europe/Helsinki:Invalid DateTime''
       \<in> set (splitCRLF (projr (generateICal genEnv0 eventNoStart)))"
proof -
  have "LF \<notin> set (finalUid genEnv0 eventNoStart)"
    by (simp add: finalUid_def genEnv0_def event0_def eventNoStart_def truthy_def LF_def)
  from splitCRLF_generate [OF this, of "''Team Sync; Q3''"]
  show ?thesis
    by (simp add: generateICal_def eventNoStart_def event0_def icalLines_def eventProps_def
        toCalDav_def)
qed

subsection \<open>Line termination\<close>

lemma joinWith_snoc:
  "joinWith sep (ls @ [x]) = (if ls = [] then x else joinWith sep ls @ sep @ x)"
  by (induction ls rule: induct_list012) simp_all

lemma generateICal_ends:
  "generateICal env input = Inr r \<Longrightarrow> suffix ''END:VCALENDAR'' r"
proof -
  assume a: "generateICal env input = Inr r"
  then obtain t where t: "title input = Some t" "r = joinWith CRLF (icalLines env input t)"
    by (auto simp: generateICal_def split: option.splits)
  have "icalLines env input t = (headerLines @ eventProps env input t @ [''END:VEVENT'']) @ [''END:VCALENDAR'']"
    by (simp add: icalLines_def)
  then have "r = joinWith CRLF (headerLines @ eventProps env input t @ [''END:VEVENT'']) @ CRLF @ ''END:VCALENDAR''"
    using t(2) joinWith_snoc [of CRLF "headerLines @ eventProps env input t @ [''END:VEVENT'']" "''END:VCALENDAR''"]
    by simp
  then show ?thesis
    unfolding suffix_def by (metis append.assoc)
qed

text \<open>
  Claim C10. The lines are joined with CRLF pairs, so the pair stands between two lines and
  not after the last: every record ends with \<open>END:VCALENDAR\<close> and no line terminator,
  as the record of the sample event does.
\<close>

theorem last_line_unterminated:
  "suffix ''END:VCALENDAR'' (projr (generateICal genEnv0 event0))
   \<and> \<not> suffix CRLF (projr (generateICal genEnv0 event0))"
proof -
  have g: "generateICal genEnv0 event0 = Inr (projr (generateICal genEnv0 event0))"
    by (simp add: generateICal_def event0_def)
  from generateICal_ends [OF g] obtain body where
    b: "projr (generateICal genEnv0 event0) = body @ ''END:VCALENDAR''"
    by (auto simp: suffix_def)
  have "\<not> suffix CRLF (body @ ''END:VCALENDAR'')"
    by (simp add: CRLF_def CR_def LF_def suffix_def append_eq_append_conv2 append_eq_Cons_conv)
  with b generateICal_ends [OF g] show ?thesis by simp
qed

subsection \<open>Generation followed by parsing\<close>













section \<open>Properties of the \<open>createEvent\<close> handler\<close>





section \<open>Properties of the orchestrator\<close>

subsection \<open>What a round and a session add to the trace\<close>

lemma execToolCall_cases:
  "execToolCall env st tc =
     (case callTool env (messages st) (tc_name tc) (parseArgs env (tc_arguments tc)) of
        Inl e \<Rightarrow> (Some e, st\<lparr>toolCallNames := toolCallNames st @ [tc_name tc],
                              trace := trace st @ [callEvent env tc]\<rparr>)
      | Inr result \<Rightarrow> (None, st\<lparr>toolCallNames := toolCallNames st @ [tc_name tc],
                               trace := trace st @ [callEvent env tc],
                               messages := messages st @ [toolMessage tc result]\<rparr>))"
  by (simp add: execToolCall_def callEvent_def Let_def split: sum.splits)

lemma execToolCalls_shape:
  "execToolCalls env tcs st = (err, st') \<Longrightarrow>
   \<exists>k results. k \<le> length tcs \<and> length results = k
     \<and> messages st' = messages st @ map2 toolMessage (take k tcs) results
     \<and> toolCallNames st' = toolCallNames st @ map tc_name (take (if err = None then k else Suc k) tcs)
     \<and> trace st' = trace st @ map (callEvent env) (take (if err = None then k else Suc k) tcs)
     \<and> (err = None \<longrightarrow> k = length tcs) \<and> (err \<noteq> None \<longrightarrow> k < length tcs)"
proof (induction tcs arbitrary: st)
  case Nil
  then show ?case by auto
next
  case (Cons tc tcs)
  show ?case
  proof (cases "callTool env (messages st) (tc_name tc) (parseArgs env (tc_arguments tc))")
    case (Inl e)
    with Cons.prems have "err = Some e"
      "st' = st\<lparr>toolCallNames := toolCallNames st @ [tc_name tc], trace := trace st @ [callEvent env tc]\<rparr>"
      by (auto simp: execToolCall_cases)
    then show ?thesis
      by (intro exI[of _ 0] exI[of _ "[]"]) simp
  next
    case (Inr result)
    define st1 where "st1 = st\<lparr>toolCallNames := toolCallNames st @ [tc_name tc],
                               trace := trace st @ [callEvent env tc],
                               messages := messages st @ [toolMessage tc result]\<rparr>"
    from Inr Cons.prems have "execToolCalls env tcs st1 = (err, st')"
      by (simp add: execToolCall_cases st1_def)
    from Cons.IH [OF this] obtain k results where
      kr: "k \<le> length tcs" "length results = k"
        "messages st' = messages st1 @ map2 toolMessage (take k tcs) results"
        "toolCallNames st' = toolCallNames st1 @ map tc_name (take (if err = None then k else Suc k) tcs)"
        "trace st' = trace st1 @ map (callEvent env) (take (if err = None then k else Suc k) tcs)"
        "err = None \<longrightarrow> k = length tcs" "err \<noteq> None \<longrightarrow> k < length tcs"
      by blast
    show ?thesis
      using kr
      by (intro exI[of _ "Suc k"] exI[of _ "result # results"]) (auto simp: st1_def)
  qed
qed

lemma isChat_callEvent [simp]: "\<not> isChat (callEvent env tc)"
  by (simp add: isChat_def callEvent_def)

lemma isCallTool_callEvent [simp]: "isCallTool (callEvent env tc)"
  by (simp add: isCallTool_def callEvent_def)

lemma callEvent_not_Close [simp]: "callEvent env tc \<noteq> Close"
  by (simp add: callEvent_def)

text \<open>What one round adds to the trace and to the list of names.\<close>

lemma roundStep_trace:
  assumes "roundStep env tools st = (outcome, st')"
  shows "\<exists>calls. trace st' = trace st @ Chat (requestBody env tools (messages st)) # map (callEvent env) calls
           \<and> toolCallNames st' = toolCallNames st @ map tc_name calls"
proof (cases "fetchData env (requestBody env tools (messages st))")
  case (Inl e)
  with assms show ?thesis
    by (intro exI[of _ "[]"]) (auto simp: roundStep_def Let_def)
next
  case (Inr choices)
  show ?thesis
  proof (cases choices)
    case Nil
    with Inr assms show ?thesis
      by (intro exI[of _ "[]"]) (auto simp: roundStep_def Let_def)
  next
    case (Cons message others)
    define st2 where "st2 = st\<lparr>trace := trace st @ [Chat (requestBody env tools (messages st))],
                               messages := messages st @ [message]\<rparr>"
    show ?thesis
    proof (cases "tool_calls message = None \<or> tool_calls message = Some []")
      case True
      with Inr Cons assms show ?thesis
        by (intro exI[of _ "[]"]) (auto simp: roundStep_def Let_def)
    next
      case False
      then obtain tcs where tcs: "tool_calls message = Some tcs" "tcs \<noteq> []" by auto
      obtain err st3 where ex: "execToolCalls env tcs st2 = (err, st3)"
        by (cases "execToolCalls env tcs st2")
      with Inr Cons tcs assms have "st' = st3"
        by (auto simp: roundStep_def Let_def st2_def split: option.splits)
      moreover from execToolCalls_shape [OF ex] obtain n where
        "toolCallNames st3 = toolCallNames st2 @ map tc_name (take n tcs)"
        "trace st3 = trace st2 @ map (callEvent env) (take n tcs)"
        by blast
      ultimately show ?thesis
        by (intro exI[of _ "take n tcs"]) (simp add: st2_def)
    qed
  qed
qed

lemma rounds_trace:
  "rounds env tools r st = (err, st') \<Longrightarrow>
   \<exists>evs. trace st' = trace st @ evs \<and> chatCount evs \<le> maxRounds - r \<and> Close \<notin> set evs
     \<and> length (toolCallNames st') = length (toolCallNames st) + length (filter isCallTool evs)"
proof (induction env tools r st arbitrary: err st' rule: rounds.induct)
  case (1 env tools r st)
  show ?case
  proof (cases "r < maxRounds")
    case False
    with "1.prems" show ?thesis
      by (intro exI[of _ "[]"]) (simp add: rounds.simps chatCount_def)
  next
    case True
    obtain outcome st1 where rs: "roundStep env tools st = (outcome, st1)"
      by (cases "roundStep env tools st")
    from roundStep_trace [OF rs] obtain calls where
      c: "trace st1 = trace st @ Chat (requestBody env tools (messages st)) # map (callEvent env) calls"
         "toolCallNames st1 = toolCallNames st @ map tc_name calls"
      by blast
    let ?evs1 = "Chat (requestBody env tools (messages st)) # map (callEvent env) calls"
    have e1: "chatCount ?evs1 = 1" "Close \<notin> set ?evs1" "length (filter isCallTool ?evs1) = length calls"
      by (auto simp: chatCount_def isChat_def isCallTool_def callEvent_def filter_map comp_def)
    show ?thesis
    proof (cases outcome)
      case Continue
      with True rs "1.prems" have "rounds env tools (r + 1) st1 = (err, st')"
        by (simp add: rounds.simps [of env tools r st])
      from "1.IH" [OF True rs [symmetric] _ this] Continue obtain evs where
        "trace st' = trace st1 @ evs" "chatCount evs \<le> maxRounds - (r + 1)" "Close \<notin> set evs"
        "length (toolCallNames st') = length (toolCallNames st1) + length (filter isCallTool evs)"
        by auto
      then show ?thesis using c e1 True
        by (intro exI[of _ "?evs1 @ evs"]) (auto simp: chatCount_def)
    next
      case Break
      with True rs "1.prems" have "st' = st1"
        by (simp add: rounds.simps [of env tools r st])
      then show ?thesis using c e1 True
        by (intro exI[of _ "?evs1"]) (auto simp: chatCount_def)
    next
      case (Throw e)
      with True rs "1.prems" have "st' = st1"
        by (simp add: rounds.simps [of env tools r st])
      then show ?thesis using c e1 True
        by (intro exI[of _ "?evs1"]) (auto simp: chatCount_def)
    qed
  qed
qed

lemma session_trace:
  assumes "session env prompt = (err, st)"
  shows "chatCount (trace st) \<le> maxRounds \<and> Close \<notin> set (trace st)
     \<and> length (toolCallNames st) = length (filter isCallTool (trace st))"
proof (cases "connect env")
  case (Some e)
  with assms show ?thesis
    by (auto simp: session_def chatCount_def isChat_def isCallTool_def)
next
  case None
  show ?thesis
  proof (cases "listTools env")
    case (Inl e)
    with None assms show ?thesis
      by (auto simp: session_def chatCount_def isChat_def isCallTool_def)
  next
    case (Inr tools)
    with None assms obtain st0 where
      st0: "rounds env (map toOpenaiTool tools) 0 st0 = (err, st)"
        "trace st0 = [Connect, ListTools]" "toolCallNames st0 = []"
      by (auto simp: session_def)
    from rounds_trace [OF st0(1)] st0(2,3) show ?thesis
      by (auto simp: chatCount_def isChat_def isCallTool_def)
  qed
qed

lemma tryBlock_trace: "snd (tryBlock env prompt) = trace (snd (session env prompt))"
  by (simp add: tryBlock_def split: prod.splits option.splits sum.splits)

lemma callMcpClient_trace:
  "snd (callMcpClient env prompt) =
     (if serverUrlValid env then trace (snd (session env prompt)) @ [Close] else [])"
  using tryBlock_trace [of env prompt]
  by (cases "tryBlock env prompt") (simp add: callMcpClient_def)

lemma at_most_maxRounds_chats: "chatCount (snd (callMcpClient env prompt)) \<le> maxRounds"
  using session_trace [of env prompt "fst (session env prompt)" "snd (session env prompt)"]
  by (simp add: callMcpClient_trace chatCount_def isChat_def)

lemma toolCalls_counts_invocations:
  assumes "callMcpClient env prompt = (Inr r, tr)"
  shows "toolCalls r = length (filter isCallTool tr)"
proof -
  obtain err st where s: "session env prompt = (err, st)"
    by (cases "session env prompt")
  from assms have v: "serverUrlValid env"
    by (auto simp: callMcpClient_def split: if_splits)
  with assms s have "toolCalls r = length (toolCallNames st)"
    by (auto simp: callMcpClient_def tryBlock_def split: option.splits sum.splits)
  moreover from assms v s have "tr = trace st @ [Close]"
    using callMcpClient_trace [of env prompt] by simp
  ultimately show ?thesis
    using session_trace [OF s] by (simp add: isCallTool_def)
qed

subsection \<open>Release of the transport\<close>

text \<open>
  Claim C7. Every execution of \<open>callMcpClient\<close> that constructed the transport ends with
  the call that closes it, whether the block returned or threw (a failure to connect, of
  the tool listing, of the chat endpoint or of a tool call), and closes it once: the trace
  is its own beginning followed by \<open>Close\<close>, and \<open>Close\<close> does not occur before. When
  the server's address does not even parse, no transport exists and nothing is called.
\<close>

theorem transport_closed_on_every_path:
  "snd (callMcpClient env prompt) =
     (if serverUrlValid env then butlast (snd (callMcpClient env prompt)) @ [Close] else [])
   \<and> Close \<notin> set (butlast (snd (callMcpClient env prompt)))"
  using session_trace [of env prompt "fst (session env prompt)" "snd (session env prompt)"]
  by (simp add: callMcpClient_trace)

subsection \<open>The tool calls of a round\<close>

lemma map2_toolMessage_ids:
  "length results = length tcs' \<Longrightarrow>
   map tool_call_id (map2 toolMessage tcs' results) = map (\<lambda>tc. Some (tc_id tc)) tcs'
   \<and> list_all (\<lambda>m. role m = Tool) (map2 toolMessage tcs' results)"
  by (induction tcs' results rule: list_induct2') (simp_all add: toolMessage_def)

lemma map2_toolMessage_all:
  "list_all (\<lambda>m. role m = Tool \<and> content m \<noteq> None) (map2 toolMessage tcs' results)"
proof (induction tcs' arbitrary: results)
  case Nil
  then show ?case by simp
next
  case (Cons tc tcs')
  then show ?case by (cases results) (simp_all add: toolMessage_def)
qed

text \<open>
  Claim C9 (amended). In a round whose assistant message carries the tool calls \<open>tcs\<close>,
  the calls to the peer are made in the order of \<open>tcs\<close>, and the messages appended
  after the assistant message are tool messages, one for each call that returned, in that
  order, the message at each position carrying the id of the call at that position. All
  of \<open>tcs\<close> are executed and answered, one message for each, when the round completes;
  a call that fails ends the session, after the messages of the calls before it and without
  a message of its own. Where the ids of \<open>tcs\<close> are distinct, as the data model has
  them, the id of each tool message is the id of exactly one call of the assistant
  message. The counterexample is a round of two calls in which the peer fails the second:
  two calls are made and one tool message is appended.
\<close>

theorem round_tool_messages_in_order:
  assumes "fetchData env (requestBody env tools (messages st)) = Inr (message # others)"
    and "tool_calls message = Some tcs" and "tcs \<noteq> []"
  shows "\<exists>k results. k \<le> length tcs \<and> length results = k
     \<and> messages (snd (roundStep env tools st))
         = messages st @ message # map2 toolMessage (take k tcs) results
     \<and> map tool_call_id (map2 toolMessage (take k tcs) results)
         = map (\<lambda>tc. Some (tc_id tc)) (take k tcs)
     \<and> list_all (\<lambda>m. role m = Tool) (map2 toolMessage (take k tcs) results)
     \<and> trace (snd (roundStep env tools st))
         = trace st @ Chat (requestBody env tools (messages st))
             # map (callEvent env)
                 (take (if fst (roundStep env tools st) = Continue then k else Suc k) tcs)
     \<and> (fst (roundStep env tools st) = Continue \<longrightarrow> k = length tcs)
     \<and> (fst (roundStep env tools st) \<noteq> Continue \<longrightarrow>
          k < length tcs \<and> (\<exists>e. fst (roundStep env tools st) = Throw e))
     \<and> (distinct (map tc_id tcs) \<longrightarrow>
          (\<forall>i < k. \<exists>!j. j < length tcs
             \<and> tool_call_id (map2 toolMessage (take k tcs) results ! i) = Some (tc_id (tcs ! j))))"
proof -
  define st2 where "st2 = st\<lparr>trace := trace st @ [Chat (requestBody env tools (messages st))],
                             messages := messages st @ [message]\<rparr>"
  obtain err st3 where ex: "execToolCalls env tcs st2 = (err, st3)"
    by (cases "execToolCalls env tcs st2")
  have rs: "roundStep env tools st = ((case err of None \<Rightarrow> Continue | Some e \<Rightarrow> Throw e), st3)"
    using assms ex by (auto simp: roundStep_def Let_def st2_def split: option.splits)
  from execToolCalls_shape [OF ex] obtain k results where
    kr: "k \<le> length tcs" "length results = k"
      "messages st3 = messages st2 @ map2 toolMessage (take k tcs) results"
      "trace st3 = trace st2 @ map (callEvent env) (take (if err = None then k else Suc k) tcs)"
      "err = None \<longrightarrow> k = length tcs" "err \<noteq> None \<longrightarrow> k < length tcs"
    by blast
  have len: "length results = length (take k tcs)"
    using kr(1,2) by simp
  note ids = map2_toolMessage_ids [OF len]
  have uniq: "\<exists>!j. j < length tcs
        \<and> tool_call_id (map2 toolMessage (take k tcs) results ! i) = Some (tc_id (tcs ! j))"
    if d: "distinct (map tc_id tcs)" and i: "i < k" for i
  proof -
    have "tool_call_id (map2 toolMessage (take k tcs) results ! i) = Some (tc_id (tcs ! i))"
      using i kr(1,2) by (simp add: toolMessage_def)
    moreover have "j = i" if "j < length tcs" "tc_id (tcs ! j) = tc_id (tcs ! i)" for j
    proof -
      have "map tc_id tcs ! j = map tc_id tcs ! i"
        using that i kr(1) by simp
      moreover have "j < length (map tc_id tcs)" "i < length (map tc_id tcs)"
        using that(1) i kr(1) by simp_all
      ultimately show ?thesis
        using d nth_eq_iff_index_eq by blast
    qed
    ultimately show ?thesis
      using i kr(1) by (intro ex1I[of _ i]) auto
  qed
  show ?thesis
    apply (rule exI[of _ k], rule exI[of _ results])
    using kr ids uniq
    by (cases err) (simp_all add: rs st2_def)
qed

subsection \<open>The sample sessions\<close>

lemma loopingEnv_fields:
  "serverUrlValid loopingEnv" "connect loopingEnv = None" "listTools loopingEnv = Inr []"
  "transportClose loopingEnv = None" "fetchData loopingEnv request = Inr [assistantMessage]"
  "callTool loopingEnv msgs name args = Inr [Some '' done'']"
  "JSON_parse loopingEnv payload = (if payload = ''{}'' then Some (JObject []) else None)"
  "systemPrompt loopingEnv = ''You are a calendar assistant''"
  by (simp_all add: loopingEnv_def)

lemma roundStep_looping: "roundStep loopingEnv tools st = (Continue, loopingRound tools st)"
  by (simp add: roundStep_def loopingEnv_fields Let_def assistantMessage_def sampleCalls_def
      execToolCall_def parseArgs_def listCall_def malformedCall_def loopingRound_def)

lemma session_looping:
  "session loopingEnv p = (None, st) \<Longrightarrow>
   last (messages st) = toolMessage malformedCall [Some '' done'']
   \<and> messages st \<noteq> [] \<and> length (toolCallNames st) = 10 \<and> chatCount (trace st) = 5"
  by (auto simp: session_def loopingEnv_fields rounds.simps maxRounds_def roundStep_looping
      loopingRound_def chatCount_def isChat_def)

lemma session_looping_ok: "fst (session loopingEnv p) = None"
  by (simp add: session_def loopingEnv_fields rounds.simps maxRounds_def roundStep_looping)

lemma run_looping:
  "fst (callMcpClient loopingEnv ''hi'') = Inr \<lparr>answer = ''done'', toolCalls = 10\<rparr>
   \<and> chatCount (snd (callMcpClient loopingEnv ''hi'')) = 5
   \<and> content (last (messages (snd (session loopingEnv ''hi'')))) = Some '' done''
   \<and> role (last (messages (snd (session loopingEnv ''hi'')))) = Tool"
proof -
  obtain st where st: "session loopingEnv ''hi'' = (None, st)"
    using session_looping_ok [of "''hi''"] by (cases "session loopingEnv ''hi''") simp
  note p = session_looping [OF st]
  have "trim '' done'' = ''done''"
    by (simp add: trim_def isWhiteSpace_def)
  then show ?thesis
    using st p
    by (simp add: callMcpClient_def tryBlock_def finalAnswer_def loopingEnv_fields
        toolMessage_def toolContent_def chatCount_def isChat_def)
qed

lemma answeringEnv_fields:
  "serverUrlValid answeringEnv" "connect answeringEnv = None" "listTools answeringEnv = Inr []"
  "transportClose answeringEnv = None"
  "fetchData answeringEnv request
     = (if length (req_messages request) = 2 then Inr [assistantMessage] else Inr [finalMessage])"
  "callTool answeringEnv msgs name args = Inr [Some '' done'']"
  "JSON_parse answeringEnv payload = (if payload = ''{}'' then Some (JObject []) else None)"
  "systemPrompt answeringEnv = ''You are a calendar assistant''"
  by (simp_all add: answeringEnv_def)

lemma roundStep_answering:
  "length (messages st) = 2 \<Longrightarrow>
   roundStep answeringEnv tools st
     = (Continue,
        \<lparr>messages = messages st
           @ [assistantMessage, toolMessage listCall [Some '' done''],
              toolMessage malformedCall [Some '' done'']],
         toolCallNames = toolCallNames st @ [''listEvents'', ''createEvent''],
         trace = trace st
           @ [Chat (requestBody answeringEnv tools (messages st)),
              CallTool ''listEvents'' (JObject []), CallTool ''createEvent'' (JObject [])]\<rparr>)"
  by (simp add: roundStep_def answeringEnv_fields Let_def assistantMessage_def sampleCalls_def
      execToolCall_def parseArgs_def listCall_def malformedCall_def requestBody_def)

lemma roundStep_answering_final:
  "length (messages st) \<noteq> 2 \<Longrightarrow>
   roundStep answeringEnv tools st
     = (Break,
        st\<lparr>trace := trace st @ [Chat (requestBody answeringEnv tools (messages st))],
            messages := messages st @ [finalMessage]\<rparr>)"
  by (simp add: roundStep_def answeringEnv_fields Let_def finalMessage_def requestBody_def)

lemma run_answering:
  "fst (callMcpClient answeringEnv ''What is on today?'')
     = Inr \<lparr>answer = ''No events.'', toolCalls = 2\<rparr>
   \<and> filter isCallTool (snd (callMcpClient answeringEnv ''What is on today?''))
       = [CallTool ''listEvents'' (JObject []), CallTool ''createEvent'' (JObject [])]"
proof -
  have "trim ''No events.'' = ''No events.''"
    by (simp add: trim_def isWhiteSpace_def)
  then show ?thesis
    by (simp add: callMcpClient_def tryBlock_def session_def finalAnswer_def answeringEnv_fields
        rounds.simps maxRounds_def roundStep_answering roundStep_answering_final
        finalMessage_def isCallTool_def)
qed

lemma rejectingEnv_fields:
  "serverUrlValid rejectingEnv" "connect rejectingEnv = None" "listTools rejectingEnv = Inr []"
  "transportClose rejectingEnv = None"
  "fetchData rejectingEnv request
     = (if length (req_messages request) = 2 then Inr [assistantMessage] else Inr [finalMessage])"
  "callTool rejectingEnv msgs name args
     = (if name = ''createEvent'' \<and> args = JObject []
        then Inl (Failure ''Invalid arguments for tool createEvent'')
        else Inr [Some '' done''])"
  "JSON_parse rejectingEnv payload = (if payload = ''{}'' then Some (JObject []) else None)"
  "systemPrompt rejectingEnv = ''You are a calendar assistant''"
  by (simp_all add: rejectingEnv_def answeringEnv_def)

lemma roundStep_rejecting:
  "length (messages st) = 2 \<Longrightarrow>
   roundStep rejectingEnv tools st
     = (Throw (Failure ''Invalid arguments for tool createEvent''),
        \<lparr>messages = messages st @ [assistantMessage, toolMessage listCall [Some '' done'']],
         toolCallNames = toolCallNames st @ [''listEvents'', ''createEvent''],
         trace = trace st
           @ [Chat (requestBody rejectingEnv tools (messages st)),
              CallTool ''listEvents'' (JObject []), CallTool ''createEvent'' (JObject [])]\<rparr>)"
  by (simp add: roundStep_def rejectingEnv_fields Let_def assistantMessage_def sampleCalls_def
      execToolCall_def parseArgs_def listCall_def malformedCall_def requestBody_def)

lemma run_rejecting:
  "fst (callMcpClient rejectingEnv ''What is on today?'')
     = Inl (Failure ''Invalid arguments for tool createEvent'')
   \<and> filter isCallTool (snd (callMcpClient rejectingEnv ''What is on today?''))
       = [CallTool ''listEvents'' (JObject []), CallTool ''createEvent'' (JObject [])]
   \<and> chatCount (snd (callMcpClient rejectingEnv ''What is on today?'')) = 1"
  by (simp add: callMcpClient_def tryBlock_def session_def rejectingEnv_fields
      rounds.simps maxRounds_def roundStep_rejecting isCallTool_def chatCount_def isChat_def)

theorem round_tool_messages_in_order_witness:
  "fetchData answeringEnv (requestBody answeringEnv [] (messages state0)) = Inr [assistantMessage]
   \<and> tool_calls assistantMessage = Some [listCall, malformedCall]
   \<and> distinct (map tc_id [listCall, malformedCall])
   \<and> fst (roundStep answeringEnv [] state0) = Continue
   \<and> messages (snd (roundStep answeringEnv [] state0))
       = messages state0 @ assistantMessage
           # map2 toolMessage [listCall, malformedCall] [[Some '' done''], [Some '' done'']]
   \<and> map tool_call_id (drop 3 (messages (snd (roundStep answeringEnv [] state0))))
       = [Some ''call_1'', Some ''call_2'']
   \<and> trace (snd (roundStep answeringEnv [] state0))
       = trace state0 @ Chat (requestBody answeringEnv [] (messages state0))
           # map (callEvent answeringEnv) [listCall, malformedCall]"
proof -
  have f: "fetchData answeringEnv (requestBody answeringEnv [] (messages state0))
      = Inr (assistantMessage # [])"
    by (simp add: answeringEnv_fields requestBody_def state0_def)
  have t: "tool_calls assistantMessage = Some sampleCalls" "sampleCalls \<noteq> []"
    by (simp_all add: assistantMessage_def sampleCalls_def)
  have l: "length (messages state0) = 2"
    by (simp add: state0_def)
  have r: "fst (roundStep answeringEnv [] state0) = Continue
     \<and> messages (snd (roundStep answeringEnv [] state0))
       = messages state0 @ assistantMessage
           # map2 toolMessage [listCall, malformedCall] [[Some '' done''], [Some '' done'']]
     \<and> map tool_call_id (drop 3 (messages (snd (roundStep answeringEnv [] state0))))
       = [Some ''call_1'', Some ''call_2'']
     \<and> trace (snd (roundStep answeringEnv [] state0))
       = trace state0 @ Chat (requestBody answeringEnv [] (messages state0))
           # map (callEvent answeringEnv) [listCall, malformedCall]"
    using roundStep_answering [OF l, of "[]"]
    by (simp add: state0_def toolMessage_def listCall_def malformedCall_def
        callEvent_def parseArgs_def answeringEnv_fields)
  have d: "distinct (map tc_id [listCall, malformedCall])"
    by (simp add: listCall_def malformedCall_def)
  from round_tool_messages_in_order [OF f t] f t(1) d r
  show ?thesis
    unfolding sampleCalls_def by blast
qed

theorem failing_call_counterexample:
  "fetchData rejectingEnv (requestBody rejectingEnv [] (messages state0)) = Inr [assistantMessage]
   \<and> tool_calls assistantMessage = Some [listCall, malformedCall]
   \<and> fst (roundStep rejectingEnv [] state0)
       = Throw (Failure ''Invalid arguments for tool createEvent'')
   \<and> filter isCallTool (trace (snd (roundStep rejectingEnv [] state0)))
       = [CallTool ''listEvents'' (JObject []), CallTool ''createEvent'' (JObject [])]
   \<and> messages (snd (roundStep rejectingEnv [] state0))
       = messages state0 @ [assistantMessage, toolMessage listCall [Some '' done'']]
   \<and> length (filter (\<lambda>m. role m = Tool) (messages (snd (roundStep rejectingEnv [] state0)))) = 1"
proof -
  have l: "length (messages state0) = 2"
    by (simp add: state0_def)
  show ?thesis
    using roundStep_rejecting [OF l, of "[]"]
    by (simp add: rejectingEnv_fields requestBody_def state0_def assistantMessage_def
        sampleCalls_def isCallTool_def toolMessage_def)
qed

subsection \<open>Tool calls with a malformed payload\<close>

text \<open>
  Claim C5 (amended). A tool call whose payload \<open>JSON.parse\<close> rejects is made to the
  peer with the empty object as arguments, and its name is counted. When the peer answers
  that call, the tool message is appended and the loop goes on with the remaining calls, as
  for any other call. When the peer fails it, the error leaves the loop and ends the
  session, as for any other call: nothing catches it. The count returned by a session
  that returns is the number of calls made to the peer, these included. The counterexample
  is a session in which the peer fails the call made without arguments: the session ends
  with that error after one round.
\<close>

theorem malformed_arguments_degrade:
  assumes "JSON_parse env (tc_arguments toolCall) = None"
  shows "trace (snd (execToolCall env st toolCall))
       = trace st @ [CallTool (tc_name toolCall) (JObject [])]
     \<and> toolCallNames (snd (execToolCall env st toolCall))
         = toolCallNames st @ [tc_name toolCall]
     \<and> (\<forall>result. callTool env (messages st) (tc_name toolCall) (JObject []) = Inr result \<longrightarrow>
          execToolCalls env (toolCall # rest) st
            = execToolCalls env rest
                (st\<lparr>toolCallNames := toolCallNames st @ [tc_name toolCall],
                    trace := trace st @ [CallTool (tc_name toolCall) (JObject [])],
                    messages := messages st @ [toolMessage toolCall result]\<rparr>))
     \<and> (\<forall>e. callTool env (messages st) (tc_name toolCall) (JObject []) = Inl e \<longrightarrow>
          execToolCalls env (toolCall # rest) st
            = (Some e,
               st\<lparr>toolCallNames := toolCallNames st @ [tc_name toolCall],
                   trace := trace st @ [CallTool (tc_name toolCall) (JObject [])]\<rparr>))
     \<and> (\<forall>p r tr. callMcpClient env p = (Inr r, tr) \<longrightarrow>
          toolCalls r = length (filter isCallTool tr))"
proof -
  have a: "parseArgs env (tc_arguments toolCall) = JObject []"
    using assms by (simp add: parseArgs_def)
  show ?thesis
    using toolCalls_counts_invocations [of env]
    by (auto simp: execToolCall_cases a callEvent_def split: sum.splits)
qed

theorem malformed_arguments_degrade_witness:
  "JSON_parse answeringEnv (tc_arguments malformedCall) = None
   \<and> trace (snd (execToolCall answeringEnv state0 malformedCall))
       = [Connect, ListTools, CallTool ''createEvent'' (JObject [])]
   \<and> toolCallNames (snd (execToolCall answeringEnv state0 malformedCall)) = [''createEvent'']
   \<and> callTool answeringEnv (messages state0) ''createEvent'' (JObject []) = Inr [Some '' done'']
   \<and> execToolCalls answeringEnv [malformedCall] state0
       = (None,
          state0\<lparr>toolCallNames := [''createEvent''],
                 trace := [Connect, ListTools, CallTool ''createEvent'' (JObject [])],
                 messages := messages state0 @ [toolMessage malformedCall [Some '' done'']]\<rparr>)
   \<and> fst (callMcpClient answeringEnv ''What is on today?'')
       = Inr \<lparr>answer = ''No events.'', toolCalls = 2\<rparr>
   \<and> length (filter isCallTool (snd (callMcpClient answeringEnv ''What is on today?''))) = 2
   \<and> JSON_parse rejectingEnv (tc_arguments malformedCall) = None
   \<and> callTool rejectingEnv (messages state0) ''createEvent'' (JObject [])
       = Inl (Failure ''Invalid arguments for tool createEvent'')
   \<and> execToolCalls rejectingEnv [malformedCall, listCall] state0
       = (Some (Failure ''Invalid arguments for tool createEvent''),
          state0\<lparr>toolCallNames := [''createEvent''],
                 trace := [Connect, ListTools, CallTool ''createEvent'' (JObject [])]\<rparr>)"
proof -
  have p: "JSON_parse answeringEnv (tc_arguments malformedCall) = None"
    by (simp add: answeringEnv_fields malformedCall_def)
  have q: "JSON_parse rejectingEnv (tc_arguments malformedCall) = None"
    by (simp add: rejectingEnv_fields malformedCall_def)
  from malformed_arguments_degrade [OF p, of state0 "[]"]
    malformed_arguments_degrade [OF q, of state0 "[listCall]"] run_answering
  show ?thesis
    by (simp add: p q answeringEnv_fields rejectingEnv_fields malformedCall_def state0_def)
qed

theorem malformed_arguments_counterexample:
  "JSON_parse rejectingEnv (tc_arguments malformedCall) = None
   \<and> tool_calls assistantMessage = Some [listCall, malformedCall]
   \<and> fetchData rejectingEnv
        (requestBody rejectingEnv []
           [\<lparr>role = System, content = Some (systemPrompt rejectingEnv), tool_calls = None,
             tool_call_id = None\<rparr>,
            \<lparr>role = User, content = Some ''What is on today?'', tool_calls = None,
             tool_call_id = None\<rparr>]) = Inr [assistantMessage]
   \<and> fst (callMcpClient rejectingEnv ''What is on today?'')
       = Inl (Failure ''Invalid arguments for tool createEvent'')
   \<and> filter isCallTool (snd (callMcpClient rejectingEnv ''What is on today?''))
       = [CallTool ''listEvents'' (JObject []), CallTool ''createEvent'' (JObject [])]
   \<and> chatCount (snd (callMcpClient rejectingEnv ''What is on today?'')) = 1"
  using run_rejecting
  by (simp add: rejectingEnv_fields malformedCall_def assistantMessage_def sampleCalls_def
      requestBody_def)

subsection \<open>The round cap\<close>

lemma execToolCalls_no_failure:
  assumes "\<And>msgs name args. \<exists>result. callTool env msgs name args = Inr result"
  shows "fst (execToolCalls env tcs st) = None"
proof (induction tcs arbitrary: st)
  case Nil
  then show ?case by simp
next
  case (Cons tc tcs)
  from assms obtain result where
    "callTool env (messages st) (tc_name tc) (parseArgs env (tc_arguments tc)) = Inr result"
    by blast
  then show ?case using Cons.IH by (simp add: execToolCall_cases)
qed

lemma roundStep_with_calls:
  assumes f: "\<And>request. \<exists>message others tcs.
        fetchData env request = Inr (message # others) \<and> tool_calls message = Some tcs \<and> tcs \<noteq> []"
    and c: "\<And>msgs name args. \<exists>result. callTool env msgs name args = Inr result"
  shows "\<exists>st'. roundStep env tools st = (Continue, st')
     \<and> chatCount (trace st') = chatCount (trace st) + 1
     \<and> messages st' \<noteq> [] \<and> role (last (messages st')) = Tool
     \<and> content (last (messages st')) \<noteq> None"
proof -
  from f obtain message others tcs where
    m: "fetchData env (requestBody env tools (messages st)) = Inr (message # others)"
      "tool_calls message = Some tcs" "tcs \<noteq> []"
    by blast
  define st2 where "st2 = st\<lparr>trace := trace st @ [Chat (requestBody env tools (messages st))],
                             messages := messages st @ [message]\<rparr>"
  obtain err st3 where ex: "execToolCalls env tcs st2 = (err, st3)"
    by (cases "execToolCalls env tcs st2")
  with execToolCalls_no_failure [OF c, of tcs st2] have err: "err = None" by simp
  have rs: "roundStep env tools st = (Continue, st3)"
    using m ex err by (simp add: roundStep_def Let_def st2_def)
  from execToolCalls_shape [OF ex] err obtain results where
    kr: "length results = length tcs"
      "messages st3 = messages st2 @ map2 toolMessage tcs results"
      "trace st3 = trace st2 @ map (callEvent env) tcs"
    by auto
  have ne: "map2 toolMessage tcs results \<noteq> []"
    using kr(1) m(3) by (cases tcs; cases results) simp_all
  have "last (map2 toolMessage tcs results) \<in> set (map2 toolMessage tcs results)"
    using ne last_in_set by blast
  with map2_toolMessage_all [of tcs results]
  have "role (last (map2 toolMessage tcs results)) = Tool
      \<and> content (last (map2 toolMessage tcs results)) \<noteq> None"
    unfolding list_all_iff by blast
  then have l: "role (last (messages st3)) = Tool" "content (last (messages st3)) \<noteq> None"
    using kr(2) ne by simp_all
  have "chatCount (trace st3) = chatCount (trace st) + 1"
    using kr(3) by (simp add: st2_def chatCount_def isChat_def callEvent_def filter_map comp_def)
  then show ?thesis using rs l ne kr(2) by simp
qed

lemma rounds_capped:
  assumes f: "\<And>request. \<exists>message others tcs.
        fetchData env request = Inr (message # others) \<and> tool_calls message = Some tcs \<and> tcs \<noteq> []"
    and c: "\<And>msgs name args. \<exists>result. callTool env msgs name args = Inr result"
  shows "r < maxRounds \<Longrightarrow>
     \<exists>st'. rounds env tools r st = (None, st')
       \<and> chatCount (trace st') = chatCount (trace st) + (maxRounds - r)
       \<and> messages st' \<noteq> [] \<and> role (last (messages st')) = Tool
       \<and> content (last (messages st')) \<noteq> None"
proof (induction "maxRounds - r" arbitrary: r st)
  case 0
  then show ?case by simp
next
  case (Suc n)
  from roundStep_with_calls [OF f c, of tools st] obtain st1 where
    s1: "roundStep env tools st = (Continue, st1)"
      "chatCount (trace st1) = chatCount (trace st) + 1"
      "messages st1 \<noteq> []" "role (last (messages st1)) = Tool"
      "content (last (messages st1)) \<noteq> None"
    by blast
  have step: "rounds env tools r st = rounds env tools (r + 1) st1"
    using Suc.prems s1(1) by (simp add: rounds.simps [of env tools r st])
  show ?case
  proof (cases "r + 1 < maxRounds")
    case True
    have "n = maxRounds - (r + 1)" using Suc.hyps(2) by simp
    from Suc.hyps(1) [OF this True, of st1] obtain st' where
      "rounds env tools (r + 1) st1 = (None, st')"
      "chatCount (trace st') = chatCount (trace st1) + (maxRounds - (r + 1))"
      "messages st' \<noteq> []" "role (last (messages st')) = Tool"
      "content (last (messages st')) \<noteq> None"
      by blast
    then show ?thesis using step s1(2) Suc.prems by auto
  next
    case False
    then have "rounds env tools (r + 1) st1 = (None, st1)"
      by (subst rounds.simps) simp
    moreover have "maxRounds - r = 1" using False Suc.prems by simp
    ultimately show ?thesis using step s1 by simp
  qed
qed

lemma roundStep_messages:
  assumes "roundStep env tools st = (outcome, st')"
  shows "\<exists>ms. messages st' = messages st @ ms"
proof (cases "fetchData env (requestBody env tools (messages st))")
  case (Inl e)
  with assms show ?thesis by (auto simp: roundStep_def Let_def)
next
  case (Inr choices)
  show ?thesis
  proof (cases choices)
    case Nil
    with Inr assms show ?thesis by (auto simp: roundStep_def Let_def)
  next
    case (Cons message others)
    define st2 where "st2 = st\<lparr>trace := trace st @ [Chat (requestBody env tools (messages st))],
                               messages := messages st @ [message]\<rparr>"
    show ?thesis
    proof (cases "tool_calls message = None \<or> tool_calls message = Some []")
      case True
      with Inr Cons assms show ?thesis by (auto simp: roundStep_def Let_def)
    next
      case False
      then obtain tcs where tcs: "tool_calls message = Some tcs" "tcs \<noteq> []" by auto
      obtain err st3 where ex: "execToolCalls env tcs st2 = (err, st3)"
        by (cases "execToolCalls env tcs st2")
      with Inr Cons tcs assms have "st' = st3"
        by (auto simp: roundStep_def Let_def st2_def split: option.splits)
      moreover from execToolCalls_shape [OF ex] obtain ms where
        "messages st3 = messages st2 @ ms"
        by blast
      ultimately show ?thesis by (simp add: st2_def)
    qed
  qed
qed

lemma rounds_messages:
  "rounds env tools r st = (err, st') \<Longrightarrow> \<exists>ms. messages st' = messages st @ ms"
proof (induction env tools r st arbitrary: err st' rule: rounds.induct)
  case (1 env tools r st)
  show ?case
  proof (cases "r < maxRounds")
    case False
    with "1.prems" show ?thesis by (simp add: rounds.simps)
  next
    case True
    obtain outcome st1 where rs: "roundStep env tools st = (outcome, st1)"
      by (cases "roundStep env tools st")
    from roundStep_messages [OF rs] obtain ms1 where m1: "messages st1 = messages st @ ms1"
      by blast
    show ?thesis
    proof (cases outcome)
      case Continue
      with True rs "1.prems" have "rounds env tools (r + 1) st1 = (err, st')"
        by (simp add: rounds.simps [of env tools r st])
      from "1.IH" [OF True rs [symmetric] _ this] Continue m1 show ?thesis by auto
    next
      case Break
      with True rs "1.prems" m1 show ?thesis
        by (simp add: rounds.simps [of env tools r st])
    next
      case (Throw e)
      with True rs "1.prems" m1 show ?thesis
        by (simp add: rounds.simps [of env tools r st])
    qed
  qed
qed

lemma session_messages:
  assumes "session env prompt = (None, st)"
  shows "messages st \<noteq> []"
proof -
  from assms obtain tools where "connect env = None" "listTools env = Inr tools"
    by (auto simp: session_def split: option.splits sum.splits)
  with assms obtain st0 where
    "rounds env (map toOpenaiTool tools) 0 st0 = (None, st)" "messages st0 \<noteq> []"
    by (auto simp: session_def)
  with rounds_messages show ?thesis by fastforce
qed

lemma callMcpClient_returns:
  assumes "serverUrlValid env" "transportClose env = None" "session env prompt = (None, st)"
  shows "callMcpClient env prompt
      = (Inr \<lparr>answer = trim (case content (last (messages st)) of None \<Rightarrow> [] | Some c \<Rightarrow> c),
               toolCalls = length (toolCallNames st)\<rparr>,
         trace st @ [Close])"
  using assms session_messages [OF assms(3)]
  by (simp add: callMcpClient_def tryBlock_def finalAnswer_def)

lemma round_cap_reached:
  assumes "serverUrlValid env" and "connect env = None" and "listTools env = Inr tools"
    and "transportClose env = None"
    and f: "\<And>request. \<exists>message others tcs.
        fetchData env request = Inr (message # others) \<and> tool_calls message = Some tcs \<and> tcs \<noteq> []"
    and c: "\<And>msgs name args. \<exists>result. callTool env msgs name args = Inr result"
  shows "(\<forall>e p. chatCount (snd (callMcpClient e p)) \<le> 5)
     \<and> (\<exists>st c. session env prompt = (None, st) \<and> messages st \<noteq> []
          \<and> role (last (messages st)) = Tool \<and> content (last (messages st)) = Some c
          \<and> chatCount (trace st) = 5
          \<and> callMcpClient env prompt
              = (Inr \<lparr>answer = trim c, toolCalls = length (toolCallNames st)\<rparr>, trace st @ [Close]))"
proof -
  have a: "\<forall>e p. chatCount (snd (callMcpClient e p)) \<le> 5"
    using at_most_maxRounds_chats by (simp add: maxRounds_def)
  define st0 where "st0 =
     \<lparr>messages =
        [\<lparr>role = System, content = Some (systemPrompt env), tool_calls = None, tool_call_id = None\<rparr>,
         \<lparr>role = User, content = Some prompt, tool_calls = None, tool_call_id = None\<rparr>],
      toolCallNames = [], trace = [Connect, ListTools]\<rparr>"
  have s: "session env prompt = rounds env (map toOpenaiTool tools) 0 st0"
    using assms(2,3) by (simp add: session_def st0_def)
  have "0 < maxRounds" by (simp add: maxRounds_def)
  from rounds_capped [OF f c this, of "map toOpenaiTool tools" st0] obtain st where
    st: "rounds env (map toOpenaiTool tools) 0 st0 = (None, st)"
      "chatCount (trace st) = chatCount (trace st0) + (maxRounds - 0)"
      "messages st \<noteq> []" "role (last (messages st)) = Tool"
      "content (last (messages st)) \<noteq> None"
    by blast
  then obtain c where cc: "content (last (messages st)) = Some c" by auto
  have n: "chatCount (trace st) = 5"
    using st(2) by (simp add: st0_def chatCount_def isChat_def maxRounds_def)
  have "callMcpClient env prompt
      = (Inr \<lparr>answer = trim c, toolCalls = length (toolCallNames st)\<rparr>, trace st @ [Close])"
    using assms(1,4) s st(1,3) cc
    by (simp add: callMcpClient_def tryBlock_def finalAnswer_def)
  then show ?thesis using a s st cc n by auto
qed

text \<open>
  Claim C4 (amended). No execution makes more than five requests to the chat endpoint.
  Whenever the loop ends without a failure of a collaborator, by a final message or by
  the cap, and the transport closes, the function returns normally, and the answer is the
  content of the last message of the conversation with the white space at both ends
  removed. When every response carries tool calls and no collaborator fails, this is what
  happens after exactly five requests, and the last message is then the tool message of
  the last call. The counterexample is a session whose tool results start with a blank:
  the answer returned is not the content of the last message.
\<close>

theorem round_cap_amended:
  "(\<forall>e p. chatCount (snd (callMcpClient e p)) \<le> 5)
   \<and> (serverUrlValid env \<and> transportClose env = None \<and> session env prompt = (None, st) \<longrightarrow>
        callMcpClient env prompt
          = (Inr \<lparr>answer = trim (case content (last (messages st)) of None \<Rightarrow> [] | Some c \<Rightarrow> c),
                   toolCalls = length (toolCallNames st)\<rparr>,
             trace st @ [Close]))
   \<and> (serverUrlValid env \<and> connect env = None \<and> listTools env = Inr tools
        \<and> transportClose env = None
        \<and> (\<forall>request. \<exists>message others tcs.
              fetchData env request = Inr (message # others) \<and> tool_calls message = Some tcs
              \<and> tcs \<noteq> [])
        \<and> (\<forall>msgs name args. \<exists>result. callTool env msgs name args = Inr result) \<longrightarrow>
        (\<exists>st' c. session env prompt = (None, st') \<and> messages st' \<noteq> []
           \<and> role (last (messages st')) = Tool \<and> content (last (messages st')) = Some c
           \<and> chatCount (trace st') = 5
           \<and> callMcpClient env prompt
               = (Inr \<lparr>answer = trim c, toolCalls = length (toolCallNames st')\<rparr>,
                  trace st' @ [Close])))"
proof (intro conjI impI)
  show "\<forall>e p. chatCount (snd (callMcpClient e p)) \<le> 5"
    using at_most_maxRounds_chats by (simp add: maxRounds_def)
next
  assume "serverUrlValid env \<and> transportClose env = None \<and> session env prompt = (None, st)"
  then show "callMcpClient env prompt
      = (Inr \<lparr>answer = trim (case content (last (messages st)) of None \<Rightarrow> [] | Some c \<Rightarrow> c),
               toolCalls = length (toolCallNames st)\<rparr>,
         trace st @ [Close])"
    using callMcpClient_returns by blast
next
  assume a: "serverUrlValid env \<and> connect env = None \<and> listTools env = Inr tools
        \<and> transportClose env = None
        \<and> (\<forall>request. \<exists>message others tcs.
              fetchData env request = Inr (message # others) \<and> tool_calls message = Some tcs
              \<and> tcs \<noteq> [])
        \<and> (\<forall>msgs name args. \<exists>result. callTool env msgs name args = Inr result)"
  then have f: "\<And>request. \<exists>message others tcs.
        fetchData env request = Inr (message # others) \<and> tool_calls message = Some tcs \<and> tcs \<noteq> []"
    and c: "\<And>msgs name args. \<exists>result. callTool env msgs name args = Inr result"
    by blast+
  from a have b: "serverUrlValid env" "connect env = None" "listTools env = Inr tools"
    "transportClose env = None"
    by blast+
  from round_cap_reached [OF b f c, of prompt]
  show "\<exists>st' c. session env prompt = (None, st') \<and> messages st' \<noteq> []
           \<and> role (last (messages st')) = Tool \<and> content (last (messages st')) = Some c
           \<and> chatCount (trace st') = 5
           \<and> callMcpClient env prompt
               = (Inr \<lparr>answer = trim c, toolCalls = length (toolCallNames st')\<rparr>,
                  trace st' @ [Close])"
    by blast
qed

theorem round_cap_amended_witness:
  "serverUrlValid loopingEnv \<and> connect loopingEnv = None \<and> listTools loopingEnv = Inr []
   \<and> transportClose loopingEnv = None
   \<and> (\<forall>request. fetchData loopingEnv request = Inr [assistantMessage])
   \<and> tool_calls assistantMessage = Some sampleCalls \<and> sampleCalls \<noteq> []
   \<and> (\<forall>msgs name args. callTool loopingEnv msgs name args = Inr [Some '' done''])
   \<and> fst (session loopingEnv ''hi'') = None
   \<and> fst (callMcpClient loopingEnv ''hi'') = Inr \<lparr>answer = ''done'', toolCalls = 10\<rparr>
   \<and> chatCount (snd (callMcpClient loopingEnv ''hi'')) = 5
   \<and> role (last (messages (snd (session loopingEnv ''hi'')))) = Tool
   \<and> trim (the (content (last (messages (snd (session loopingEnv ''hi'')))))) = ''done''"
proof -
  have s: "session loopingEnv ''hi'' = (None, snd (session loopingEnv ''hi''))"
    using session_looping_ok [of "''hi''"] by (cases "session loopingEnv ''hi''") simp
  from round_cap_amended [of loopingEnv "''hi''" "snd (session loopingEnv ''hi'')" "[]"]
    run_looping session_looping_ok [of "''hi''"]
  show ?thesis
    by (auto simp: loopingEnv_fields assistantMessage_def sampleCalls_def)
qed

theorem round_cap_counterexample:
  "fst (callMcpClient loopingEnv ''hi'') = Inr \<lparr>answer = ''done'', toolCalls = 10\<rparr>
   \<and> chatCount (snd (callMcpClient loopingEnv ''hi'')) = 5
   \<and> content (last (messages (snd (session loopingEnv ''hi'')))) = Some '' done''
   \<and> answer (projr (fst (callMcpClient loopingEnv ''hi'')))
       \<noteq> the (content (last (messages (snd (session loopingEnv ''hi'')))))"
  using run_looping by simp

end
